theory Spec2Isabelle
  imports Complex_Main "HOL-Library.Sublist"
begin

section \<open>Text primitives of the Python runtime\<close>

text \<open>
  The backend is \<^verbatim>\<open>src/backend/server.py\<close>. Python strings are modelled as
  \<^typ>\<open>string\<close> restricted to ASCII text: the character classes below are the ASCII
  part of \<^verbatim>\<open>str.isspace\<close>, \<^verbatim>\<open>\w\<close>, \<^verbatim>\<open>\d\<close> and \<^verbatim>\<open>str.lower\<close>, and
  every character outside ASCII is an opaque character that is neither space, word
  character, digit nor letter. The floats of the scores are modelled as exact reals; the
  keyword densities are computed in double precision, as the section on doubles says.
\<close>

definition is_space :: "char \<Rightarrow> bool" where
  \<comment> \<open>\<^verbatim>\<open>str.isspace\<close> / \<^verbatim>\<open>\s\<close> on ASCII: TAB, LF, VT, FF, CR, FS, GS, RS, US, space.\<close>
  "is_space c = ((of_char c :: nat) \<in> {9, 10, 11, 12, 13, 28, 29, 30, 31, 32})"

definition is_digit :: "char \<Rightarrow> bool" where
  \<comment> \<open>\<^verbatim>\<open>\d\<close> on ASCII\<close>
  "is_digit c = (c \<in> set ''0123456789'')"

definition is_upper :: "char \<Rightarrow> bool" where
  "is_upper c = (c \<in> set ''ABCDEFGHIJKLMNOPQRSTUVWXYZ'')"

definition is_lower :: "char \<Rightarrow> bool" where
  "is_lower c = (c \<in> set ''abcdefghijklmnopqrstuvwxyz'')"

definition is_word_char :: "char \<Rightarrow> bool" where
  \<comment> \<open>\<^verbatim>\<open>\w\<close> on ASCII: letters, digits and the underscore.\<close>
  "is_word_char c = (is_upper c \<or> is_lower c \<or> is_digit c \<or> c = CHR ''_'')"

definition is_terminator :: "char \<Rightarrow> bool" where
  \<comment> \<open>the character class \<^verbatim>\<open>[.!?]\<close>\<close>
  "is_terminator c = (c = CHR ''.'' \<or> c = CHR ''!'' \<or> c = CHR ''?'')"

definition is_vowel :: "char \<Rightarrow> bool" where
  \<comment> \<open>the character class \<^verbatim>\<open>[aeiouy]\<close>\<close>
  "is_vowel c = (c = CHR ''a'' \<or> c = CHR ''e'' \<or> c = CHR ''i'' \<or> c = CHR ''o''
                 \<or> c = CHR ''u'' \<or> c = CHR ''y'')"

definition lower_char :: "char \<Rightarrow> char" where
  "lower_char c =
     (case map_of (zip ''ABCDEFGHIJKLMNOPQRSTUVWXYZ'' ''abcdefghijklmnopqrstuvwxyz'') c of
        Some l \<Rightarrow> l
      | None \<Rightarrow> c)"

definition lower :: "string \<Rightarrow> string" where
  \<comment> \<open>\<^verbatim>\<open>str.lower()\<close>\<close>
  "lower s = map lower_char s"

text \<open>
  \<^verbatim>\<open>re.findall\<close> of a pattern \<^verbatim>\<open>[class]+\<close> returns the maximal runs of characters of
  the class, left to right. \<open>cur\<close> is the run being read.
\<close>

fun runs_from :: "(char \<Rightarrow> bool) \<Rightarrow> string \<Rightarrow> string \<Rightarrow> string list" where
  "runs_from P cur [] = (if cur = [] then [] else [cur])"
| "runs_from P cur (c # cs) =
     (if P c then runs_from P (cur @ [c]) cs
      else (if cur = [] then [] else [cur]) @ runs_from P [] cs)"

definition runs :: "(char \<Rightarrow> bool) \<Rightarrow> string \<Rightarrow> string list" where
  "runs P s = runs_from P [] s"

definition split_ws :: "string \<Rightarrow> string list" where
  \<comment> \<open>\<^verbatim>\<open>text.split()\<close>: the maximal runs of non-whitespace characters\<close>
  "split_ws s = runs (\<lambda>c. \<not> is_space c) s"

text \<open>
  \<^verbatim>\<open>re.split\<close> of a pattern \<^verbatim>\<open>[class]+\<close>: the pieces between the maximal runs of
  separators, the empty pieces before a leading and after a trailing run included.
  \<open>prev\<close> tells that the previous character was a separator.
\<close>

fun re_split_from :: "(char \<Rightarrow> bool) \<Rightarrow> bool \<Rightarrow> string \<Rightarrow> string \<Rightarrow> string list" where
  "re_split_from P prev cur [] = [cur]"
| "re_split_from P prev cur (c # cs) =
     (if P c then (if prev then re_split_from P True cur cs
                   else cur # re_split_from P True [] cs)
      else re_split_from P False (cur @ [c]) cs)"

definition re_split :: "(char \<Rightarrow> bool) \<Rightarrow> string \<Rightarrow> string list" where
  "re_split P s = re_split_from P False [] s"

fun contains :: "string \<Rightarrow> string \<Rightarrow> bool" where
  \<comment> \<open>\<^verbatim>\<open>t in s\<close> for strings: \<open>t\<close> occurs in \<open>s\<close> as a contiguous substring\<close>
  "contains t [] = (t = [])"
| "contains t (c # cs) = (prefix t (c # cs) \<or> contains t cs)"

section \<open>Double-precision arithmetic\<close>

text \<open>
  A Python \<^verbatim>\<open>float\<close> is an IEEE double: every operation returns the exact result rounded
  to 53 significant bits, a tie going to the even significand. \<open>to_double\<close> is that
  rounding, with the exponent left unbounded: overflow and underflow are out of reach of
  the counts of a text. \<open>exponent x\<close> is the integer part of the binary logarithm of a
  positive \<open>x\<close>.
\<close>

fun ilog2 :: "nat \<Rightarrow> nat" where
  "ilog2 n = (if n < 2 then 0 else Suc (ilog2 (n div 2)))"

declare ilog2.simps [simp del]

definition pow2 :: "int \<Rightarrow> real" where
  "pow2 e = (if 0 \<le> e then 2 ^ nat e else 1 / 2 ^ nat (- e))"

definition exponent :: "real \<Rightarrow> int" where
  "exponent x =
     (if 1 \<le> x then int (ilog2 (nat \<lfloor>x\<rfloor>))
      else let k = ilog2 (nat \<lfloor>1 / x\<rfloor>)
           in if x * 2 ^ k = 1 then - int k else - int k - 1)"

definition round_half_even :: "real \<Rightarrow> int" where
  "round_half_even y =
     (let f = \<lfloor>y\<rfloor>; d = y - of_int f
      in if d < 1 / 2 then f
         else if 1 / 2 < d then f + 1
         else if even f then f else f + 1)"

definition to_double :: "real \<Rightarrow> real" where
  "to_double x =
     (if x = 0 then 0
      else let u = pow2 (exponent \<bar>x\<bar> - 52)
           in sgn x * (of_int (round_half_even (\<bar>x\<bar> / u)) * u))"

section \<open>Text metrics\<close>

definition calculate_readability :: "string \<Rightarrow> real" where
  "calculate_readability text =
     (let words = length (split_ws text);
          sentences = length (re_split is_terminator text);
          syllables = sum_list (map (\<lambda>word. length (runs is_vowel (lower word))) (split_ws text))
      in if sentences = 0 \<or> words = 0 then 0
         else let score = 206.835 - 1.015 * (real words / real sentences)
                                   - 84.6 * (real syllables / real words)
              in max 0 (min 100 score))"

definition calculate_seo_score :: "string \<Rightarrow> string \<Rightarrow> real" where
  "calculate_seo_score text title =
     (let score = 0;
          words = split_ws text;
          word_count = length words;
          score = (if 300 \<le> word_count \<and> word_count \<le> 2000 then score + 30
                   else if word_count > 2000 then score + 20
                   else score + 10);
          score = (if contains (lower title) (lower text) then score + 20 else score);
          score = (if CHR 0x0A \<in> set text \<or> length text > 500 then score + 20 else score);
          unique_words = length (remdups (map lower words));
          score = (if word_count > 0
                   then let variety = real unique_words / real word_count
                        in score + variety * 30
                   else score)
      in min 100 score)"

text \<open>
  \<^verbatim>\<open>extract_keywords\<close>. A Python \<^verbatim>\<open>dict\<close> keeps its keys in insertion order and
  \<^verbatim>\<open>sorted\<close> reads \<^verbatim>\<open>items()\<close> in that order, so the dictionaries are association
  lists with distinct keys. \<open>bump\<close> is \<^verbatim>\<open>word_freq[word] = word_freq.get(word, 0) + 1\<close>:
  a known key keeps its place, a new key goes to the end. The density \<^verbatim>\<open>(v / total) * 100\<close>
  is a division of two integers, which Python rounds correctly to a double, and a
  multiplication of doubles.
\<close>

fun bump :: "string \<Rightarrow> (string \<times> nat) list \<Rightarrow> (string \<times> nat) list" where
  "bump word [] = [(word, 0 + 1)]"
| "bump word ((k, v) # kvs) = (if k = word then (k, v + 1) # kvs else (k, v) # bump word kvs)"

definition keyword_tokens :: "string \<Rightarrow> string list" where
  \<comment> \<open>\<^verbatim>\<open>[w.lower() for w in re.findall(r'\w+', text) if len(w) > 3]\<close>\<close>
  "keyword_tokens text = map lower (filter (\<lambda>w. length w > 3) (runs is_word_char text))"

definition sorted_reverse :: "('a \<Rightarrow> real) \<Rightarrow> 'a list \<Rightarrow> 'a list" where
  \<comment> \<open>\<^verbatim>\<open>sorted(xs, key=f, reverse=True)\<close>: descending by key and stable, equal keys keep
      their order; \<open>sort_key\<close> is the stable insertion sort.\<close>
  "sorted_reverse f xs = sort_key (\<lambda>x. - f x) xs"

definition extract_keywords :: "string \<Rightarrow> (string \<times> real) list" where
  "extract_keywords text =
     (let words = keyword_tokens text
      in if words = [] then []
         else let word_freq = fold bump words [];
                  total = length words;
                  densities = map (\<lambda>(k, v). (k, to_double (to_double (real v / real total) * 100)))
                              word_freq;
                  sorted_keywords = take 5 (sorted_reverse snd densities)
              in sorted_keywords)"

section \<open>Parsing the model's responses\<close>

definition LF :: char where
  "LF = CHR 0x0A"

definition strip :: "string \<Rightarrow> string" where
  \<comment> \<open>\<^verbatim>\<open>str.strip()\<close>\<close>
  "strip s = rev (dropWhile is_space (rev (dropWhile is_space s)))"

definition match_dot_plus :: "string \<Rightarrow> (string \<times> string) option" where
  \<comment> \<open>the greedy group \<^verbatim>\<open>(.+)\<close> at the head of \<open>s\<close>: at least one character, up to the
      line feed; the result is the group and the text after the match\<close>
  "match_dot_plus s =
     (case s of
        [] \<Rightarrow> None
      | c # cs \<Rightarrow> if c = LF then None
                  else Some (takeWhile (\<lambda>x. x \<noteq> LF) s, dropWhile (\<lambda>x. x \<noteq> LF) s))"

fun backtrack_ws :: "nat \<Rightarrow> string \<Rightarrow> (string \<times> string) option" where
  \<comment> \<open>\<^verbatim>\<open>\s*\<close> is greedy and gives characters back one at a time until \<^verbatim>\<open>(.+)\<close> matches\<close>
  "backtrack_ws 0 r = match_dot_plus r"
| "backtrack_ws (Suc i) r =
     (case match_dot_plus (drop (Suc i) r) of
        Some m \<Rightarrow> Some m
      | None \<Rightarrow> backtrack_ws i r)"

definition match_ws_dot_plus :: "string \<Rightarrow> (string \<times> string) option" where
  \<comment> \<open>\<^verbatim>\<open>\s*(.+)\<close> at the head of \<open>r\<close>\<close>
  "match_ws_dot_plus r = backtrack_ws (length (takeWhile is_space r)) r"

definition match_numbered :: "string \<Rightarrow> (string \<times> string) option" where
  \<comment> \<open>\<^verbatim>\<open>\d+\.\s*(.+)\<close> at the head of \<open>s\<close>. Giving digits back never helps: the next
      character is then a digit, not the dot.\<close>
  "match_numbered s =
     (case dropWhile is_digit s of
        [] \<Rightarrow> None
      | c # r \<Rightarrow> if takeWhile is_digit s \<noteq> [] \<and> c = CHR ''.'' then match_ws_dot_plus r
                 else None)"

lemma match_dot_plus_shorter:
  "match_dot_plus s = Some (g, rest) \<Longrightarrow> length rest \<le> length s"
proof -
  assume "match_dot_plus s = Some (g, rest)"
  then have "rest = dropWhile (\<lambda>x. x \<noteq> LF) s"
    by (auto simp: match_dot_plus_def split: list.splits if_splits)
  then show ?thesis by (simp add: length_dropWhile_le)
qed

lemma backtrack_ws_shorter:
  "backtrack_ws i r = Some (g, rest) \<Longrightarrow> length rest \<le> length r"
proof (induction i)
  case 0
  then show ?case by (simp add: match_dot_plus_shorter)
next
  case (Suc i)
  show ?case
  proof (cases "match_dot_plus (drop (Suc i) r)")
    case None
    with Suc show ?thesis by simp
  next
    case (Some m)
    with Suc.prems have "match_dot_plus (drop (Suc i) r) = Some (g, rest)" by simp
    then have "length rest \<le> length (drop (Suc i) r)" by (rule match_dot_plus_shorter)
    then show ?thesis by simp
  qed
qed

lemma match_numbered_shorter:
  assumes "match_numbered s = Some (g, rest)"
  shows "length rest < length s"
proof -
  from assms obtain c r where d: "dropWhile is_digit s = c # r"
    and m: "match_ws_dot_plus r = Some (g, rest)"
    by (auto simp: match_numbered_def split: list.splits if_splits)
  from m have "length rest \<le> length r"
    unfolding match_ws_dot_plus_def by (rule backtrack_ws_shorter)
  moreover have "length (dropWhile is_digit s) \<le> length s" by (rule length_dropWhile_le)
  ultimately show ?thesis using d by simp
qed

function findall_numbered :: "string \<Rightarrow> string list" where
  \<comment> \<open>\<^verbatim>\<open>re.findall(r'\d+\.\s*(.+)', response)\<close>: the groups of the successive matches\<close>
  "findall_numbered [] = []"
| "findall_numbered (c # cs) =
     (case match_numbered (c # cs) of
        None \<Rightarrow> findall_numbered cs
      | Some (g, rest) \<Rightarrow> g # findall_numbered rest)"
  by pat_completeness auto
termination
proof (relation "measure length")
  fix c cs x g rest
  assume "match_numbered (c # cs) = Some x" and "(g, rest) = x"
  then have "match_numbered (c # cs) = Some (g, rest)" by simp
  then have "length rest < length (c # cs)" by (rule match_numbered_shorter)
  then show "(rest, c # cs) \<in> measure length" by simp
qed simp_all

fun re_search_after :: "string \<Rightarrow> (string \<Rightarrow> string option) \<Rightarrow> string \<Rightarrow> string option" where
  \<comment> \<open>\<^verbatim>\<open>re.search\<close> of a literal followed by a group: the leftmost position where the
      literal stands and the rest of the pattern matches\<close>
  "re_search_after lit m [] = None"
| "re_search_after lit m (c # cs) =
     (if prefix lit (c # cs)
      then (case m (drop (length lit) (c # cs)) of
              Some g \<Rightarrow> Some g
            | None \<Rightarrow> re_search_after lit m cs)
      else re_search_after lit m cs)"

fun lazy_group :: "(string \<Rightarrow> bool) \<Rightarrow> string \<Rightarrow> string \<Rightarrow> string" where
  \<comment> \<open>the lazy group \<^verbatim>\<open>(.+?)\<close> under \<^verbatim>\<open>re.DOTALL\<close>: the shortest non-empty text after
      which the rest of the pattern, \<open>stop\<close>, holds\<close>
  "lazy_group stop acc [] = acc"
| "lazy_group stop acc (c # cs) =
     (if acc \<noteq> [] \<and> stop (c # cs) then acc else lazy_group stop (acc @ [c]) cs)"

definition at_end :: "string \<Rightarrow> bool" where
  \<comment> \<open>\<^verbatim>\<open>$\<close> without \<^verbatim>\<open>re.MULTILINE\<close>: the end of the string, or before its last line feed\<close>
  "at_end rest = (rest = [] \<or> rest = [LF])"

definition match_ws_lazy :: "(string \<Rightarrow> bool) \<Rightarrow> string \<Rightarrow> string option" where
  \<comment> \<open>\<^verbatim>\<open>\s*(.+?)\<close> followed by a pattern that holds at the end of the string: the greedy
      \<^verbatim>\<open>\s*\<close> gives one character back when it has eaten the whole rest\<close>
  "match_ws_lazy stop r =
     (if r = [] then None
      else let n = length (takeWhile is_space r);
               start = (if drop n r \<noteq> [] then drop n r else drop (n - 1) r)
           in Some (lazy_group stop [] start))"

section \<open>Data model\<close>

type_synonym timestamp = nat

record content_input =
  title :: string
  content :: string
  content_type :: string

record analysis_result =
  readability_score :: real
  seo_score :: real
  tone :: string
  keyword_density :: "(string \<times> real) list"
  word_count :: nat
  sentence_count :: nat
  suggestions :: "string list"

record optimization_result =
  optimized_content :: string
  improvements :: "string list"

record variant_result =
  variant_a :: string
  variant_b :: string
  differences :: "string list"

text \<open>
  \<^verbatim>\<open>ContentJob\<close>; its fields \<^verbatim>\<open>id\<close>, \<^verbatim>\<open>title\<close> and \<^verbatim>\<open>content_type\<close> are
  \<open>job_id\<close>, \<open>job_title\<close> and \<open>job_content_type\<close> here.
\<close>

record content_job =
  job_id :: string
  job_title :: string
  original_content :: string
  job_content_type :: string
  status :: string
  analysis :: "analysis_result option"
  optimization :: "optimization_result option"
  variants :: "variant_result option"
  created_at :: timestamp
  completed_at :: "timestamp option"
  error :: "string option"

section \<open>The text-generation service\<close>

text \<open>
  \<^verbatim>\<open>chat.send_message\<close> is an external service: it is a parameter \<open>llm\<close> of the model,
  a function of what the stage puts into its prompt, which returns the response
  (\<open>Inr\<close>) or raises (\<open>Inl\<close>, with the text \<^verbatim>\<open>str(e)\<close> of the exception). Creating the
  \<^verbatim>\<open>LlmChat\<close> session itself is taken not to fail.
\<close>

datatype prompt =
    AnalysisPrompt string string string
  | OptimizePrompt string string string real real string
  | VariantsPrompt string string string

type_synonym llm = "prompt \<Rightarrow> string + string"

datatype http_exception = HTTPException nat string

fun digits :: "nat \<Rightarrow> string" where
  "digits n = (if n < 10 then [''0123456789'' ! n]
               else digits (n div 10) @ [''0123456789'' ! (n mod 10)])"

declare digits.simps [simp del]

fun str_exception :: "http_exception \<Rightarrow> string" where
  \<comment> \<open>\<^verbatim>\<open>str(e)\<close> as the web framework renders its \<^verbatim>\<open>HTTPException\<close>: status code, colon,
      detail\<close>
  "str_exception (HTTPException status_code detail) = digits status_code @ '': '' @ detail"

definition py_round2 :: "real \<Rightarrow> real" where
  \<comment> \<open>\<^verbatim>\<open>round(x, 2)\<close> on the exact value: to the nearest hundredth, a tie to the even one\<close>
  "py_round2 x =
     (let y = x * 100; f = \<lfloor>y\<rfloor>; d = y - of_int f
      in of_int (if d < 1 / 2 then f
                 else if 1 / 2 < d then f + 1
                 else if even f then f else f + 1) / 100)"

section \<open>The three stages\<close>

definition parse_tone :: "string \<Rightarrow> string" where
  "parse_tone response =
     (case re_search_after ''TONE:'' (\<lambda>r. map_option fst (match_ws_dot_plus r)) response of
        Some g \<Rightarrow> strip g
      | None \<Rightarrow> ''Neutral'')"

definition parse_suggestions :: "string \<Rightarrow> string list" where
  "parse_suggestions response =
     (let suggestions = findall_numbered response
      in if suggestions \<noteq> [] then take 3 suggestions
         else [''Improve clarity'', ''Enhance engagement'', ''Optimize structure''])"

definition analyze_content_with_ai :: "llm \<Rightarrow> string \<Rightarrow> string \<Rightarrow> string \<Rightarrow> analysis_result" where
  "analyze_content_with_ai llm content' title' content_type' =
     (let readability = calculate_readability content';
          seo = calculate_seo_score content' title';
          keywords = extract_keywords content';
          word_count' = length (split_ws content');
          sentence_count' = length (re_split is_terminator content');
          (tone', suggestions') =
             (case llm (AnalysisPrompt content_type' title' (take 500 content')) of
                Inr response \<Rightarrow> (parse_tone response, parse_suggestions response)
              | Inl e \<Rightarrow> (''Unable to analyze'',
                          [''Improve readability'', ''Enhance SEO'', ''Strengthen engagement'']))
      in \<lparr>readability_score = py_round2 readability,
          seo_score = py_round2 seo,
          tone = tone',
          keyword_density = keywords,
          word_count = word_count',
          sentence_count = sentence_count',
          suggestions = suggestions'\<rparr>)"

definition optimize_content_with_ai ::
  "llm \<Rightarrow> string \<Rightarrow> string \<Rightarrow> analysis_result \<Rightarrow> string \<Rightarrow> http_exception + optimization_result" where
  "optimize_content_with_ai llm content' title' analysis' content_type' =
     (case llm (OptimizePrompt content_type' title' content' (readability_score analysis')
                  (seo_score analysis') (tone analysis')) of
        Inr optimized \<Rightarrow>
          Inr \<lparr>optimized_content = strip optimized,
               improvements = [''Enhanced readability and flow'',
                               ''Improved SEO keyword integration'',
                               ''Strengthened engagement and clarity'',
                               ''Optimized structure and formatting'']\<rparr>
      | Inl e \<Rightarrow> Inl (HTTPException 500 (''Optimization failed: '' @ e)))"

definition generate_variants_with_ai ::
  "llm \<Rightarrow> string \<Rightarrow> string \<Rightarrow> string \<Rightarrow> http_exception + variant_result" where
  "generate_variants_with_ai llm optimized_content' title' content_type' =
     (case llm (VariantsPrompt content_type' title' optimized_content') of
        Inr response \<Rightarrow>
          let variant_a_match =
                re_search_after ''VARIANT_A:''
                  (match_ws_lazy (\<lambda>rest. prefix ''VARIANT_B:'' rest \<or> at_end rest)) response;
              variant_b_match = re_search_after ''VARIANT_B:'' (match_ws_lazy at_end) response
          in Inr \<lparr>variant_a = (case variant_a_match of Some g \<Rightarrow> strip g
                                 | None \<Rightarrow> optimized_content'),
                  variant_b = (case variant_b_match of Some g \<Rightarrow> strip g
                                 | None \<Rightarrow> optimized_content'),
                  differences = [''Variant A: Emotional and narrative-driven approach'',
                                 ''Variant B: Data-focused and authoritative tone'',
                                 ''Both optimized for different audience segments'']\<rparr>
      | Inl e \<Rightarrow> Inl (HTTPException 500 (''Variant generation failed: '' @ e)))"

section \<open>The job store and the pipeline\<close>

text \<open>
  \<^verbatim>\<open>db.content_jobs\<close> is the list of its documents, in the order the store returns
  them. Its writes are taken not to fail, and one job is processed with no other request
  touching its document meanwhile.
\<close>

fun update_one :: "string \<Rightarrow> (content_job \<Rightarrow> content_job) \<Rightarrow> content_job list \<Rightarrow> content_job list" where
  \<comment> \<open>\<^verbatim>\<open>update_one({"id": job_id}, {"$set": ...})\<close>: the first document with this id, if any\<close>
  "update_one jid f [] = []"
| "update_one jid f (j # js) = (if job_id j = jid then f j # js else j # update_one jid f js)"

definition find_one :: "string \<Rightarrow> content_job list \<Rightarrow> content_job option" where
  "find_one jid db = find (\<lambda>j. job_id j = jid) db"

definition count_documents :: "string \<Rightarrow> content_job list \<Rightarrow> nat" where
  \<comment> \<open>\<^verbatim>\<open>count_documents({"status": s})\<close>\<close>
  "count_documents s db = length (filter (\<lambda>j. status j = s) db)"

definition ContentJob :: "string \<Rightarrow> timestamp \<Rightarrow> string \<Rightarrow> string \<Rightarrow> string \<Rightarrow> content_job" where
  \<comment> \<open>the constructor with its defaults; \<open>new_id\<close> is the fresh \<^verbatim>\<open>uuid4\<close>, \<open>now\<close> the clock\<close>
  "ContentJob new_id now title' original_content' content_type' =
     \<lparr>job_id = new_id,
      job_title = title',
      original_content = original_content',
      job_content_type = content_type',
      status = ''processing'',
      analysis = None,
      optimization = None,
      variants = None,
      created_at = now,
      completed_at = None,
      error = None\<rparr>"

definition submit_content :: "string \<Rightarrow> timestamp \<Rightarrow> content_input \<Rightarrow> content_job list \<Rightarrow> content_job list" where
  \<comment> \<open>\<^verbatim>\<open>insert_one\<close> of the new job; the background task is \<open>process_content_job\<close>\<close>
  "submit_content new_id now content_input' db =
     db @ [ContentJob new_id now (title content_input') (content content_input')
             (content_type content_input')]"

datatype stage = Analyze | Optimize | Vary

datatype event = Started stage | Stored "content_job list"

definition job_failed :: "http_exception \<Rightarrow> timestamp \<Rightarrow> string \<Rightarrow> content_job list \<Rightarrow> content_job list" where
  \<comment> \<open>the handler of \<^verbatim>\<open>except Exception as e\<close>\<close>
  "job_failed e now jid db =
     update_one jid (\<lambda>j. j\<lparr>status := ''failed'',
                             error := Some (str_exception e),
                             completed_at := Some now\<rparr>) db"

text \<open>
  \<^verbatim>\<open>process_content_job\<close> returns what happened, in order: each stage it started and
  the store after each write. \<open>now\<close> is the clock at the last write.
\<close>

definition process_content_job ::
  "llm \<Rightarrow> timestamp \<Rightarrow> string \<Rightarrow> content_input \<Rightarrow> content_job list \<Rightarrow> event list" where
  "process_content_job llm now jid content_input' db =
     (let analysis' = analyze_content_with_ai llm (content content_input') (title content_input')
                        (content_type content_input');
          db1 = update_one jid (\<lambda>j. j\<lparr>analysis := Some analysis'\<rparr>) db
      in [Started Analyze, Stored db1, Started Optimize] @
         (case optimize_content_with_ai llm (content content_input') (title content_input')
                 analysis' (content_type content_input') of
            Inl e \<Rightarrow> [Stored (job_failed e now jid db1)]
          | Inr optimization' \<Rightarrow>
              let db2 = update_one jid (\<lambda>j. j\<lparr>optimization := Some optimization'\<rparr>) db1
              in [Stored db2, Started Vary] @
                 (case generate_variants_with_ai llm (optimized_content optimization')
                         (title content_input') (content_type content_input') of
                    Inl e \<Rightarrow> [Stored (job_failed e now jid db2)]
                  | Inr variants' \<Rightarrow>
                      [Stored (update_one jid
                                 (\<lambda>j. j\<lparr>variants := Some variants',
                                         status := ''completed'',
                                         completed_at := Some now\<rparr>) db2)])))"

fun stores :: "event list \<Rightarrow> content_job list list" where
  "stores [] = []"
| "stores (Stored db # es) = db # stores es"
| "stores (Started s # es) = stores es"

fun started :: "event list \<Rightarrow> stage list" where
  "started [] = []"
| "started (Started s # es) = s # started es"
| "started (Stored db # es) = started es"

section \<open>Statistics\<close>

record stats =
  total_jobs :: nat
  completed_jobs :: nat
  processing_jobs :: nat
  failed_jobs :: nat
  avg_readability_score :: real
  avg_seo_score :: real

definition average :: "real list \<Rightarrow> real" where
  \<comment> \<open>\<^verbatim>\<open>sum(xs) / len(xs) if xs else 0\<close>\<close>
  "average xs = (if xs \<noteq> [] then sum_list xs / real (length xs) else 0)"

definition analysis_scores :: "(analysis_result \<Rightarrow> real) \<Rightarrow> content_job list \<Rightarrow> real list" where
  \<comment> \<open>\<^verbatim>\<open>[job['analysis'][field] for job in completed if job.get('analysis')]\<close>\<close>
  "analysis_scores field completed =
     map (\<lambda>job. field (the (analysis job))) (filter (\<lambda>job. analysis job \<noteq> None) completed)"

definition get_stats :: "content_job list \<Rightarrow> stats" where
  "get_stats db =
     (let completed = take 100 (filter (\<lambda>j. status j = ''completed'') db);
          avg_readability = (if completed \<noteq> [] then average (analysis_scores readability_score completed) else 0);
          avg_seo = (if completed \<noteq> [] then average (analysis_scores seo_score completed) else 0)
      in \<lparr>total_jobs = length db,
          completed_jobs = count_documents ''completed'' db,
          processing_jobs = count_documents ''processing'' db,
          failed_jobs = count_documents ''failed'' db,
          avg_readability_score = py_round2 avg_readability,
          avg_seo_score = py_round2 avg_seo\<rparr>)"

section \<open>The specification's formulas\<close>

text \<open>
  The SEO score as the specification words it: four terms, summed and capped at 100.
\<close>

definition length_points :: "nat \<Rightarrow> real" where
  "length_points n = (if 300 \<le> n \<and> n \<le> 2000 then 30 else if n > 2000 then 20 else 10)"

definition title_points :: "string \<Rightarrow> string \<Rightarrow> real" where
  "title_points text title' = (if sublist (lower title') (lower text) then 20 else 0)"

definition structure_points :: "string \<Rightarrow> real" where
  "structure_points text = (if LF \<in> set text \<or> length text > 500 then 20 else 0)"

definition variety_points :: "string list \<Rightarrow> real" where
  "variety_points ws =
     (if ws = [] then 0 else 30 * (real (card (set (map lower ws))) / real (length ws)))"


text \<open>
  The terms of the readability formula: the sentences are the segments that the split at
  the terminators yields, a syllable is a run of vowels of either case.
\<close>

definition sentence_segments :: "string \<Rightarrow> nat" where
  "sentence_segments text = length (re_split is_terminator text)"

definition syllable_units :: "string \<Rightarrow> nat" where
  "syllable_units word = length (runs (\<lambda>c. c \<in> set ''aeiouyAEIOUY'') word)"

definition flesch :: "nat \<Rightarrow> nat \<Rightarrow> nat \<Rightarrow> real" where
  "flesch words sentences syllables =
     206.835 - 1.015 * (real words / real sentences) - 84.6 * (real syllables / real words)"

text \<open>
  The three stages on the input of a job, and what the store holds for one job after
  each write of the pipeline.
\<close>

definition run_analyze :: "llm \<Rightarrow> content_input \<Rightarrow> analysis_result" where
  "run_analyze llm inp =
     analyze_content_with_ai llm (content inp) (title inp) (content_type inp)"

definition run_optimize :: "llm \<Rightarrow> content_input \<Rightarrow> http_exception + optimization_result" where
  "run_optimize llm inp =
     optimize_content_with_ai llm (content inp) (title inp) (run_analyze llm inp) (content_type inp)"

definition run_vary :: "llm \<Rightarrow> content_input \<Rightarrow> optimization_result \<Rightarrow> http_exception + variant_result" where
  "run_vary llm inp opt =
     generate_variants_with_ai llm (optimized_content opt) (title inp) (content_type inp)"

definition failed_with :: "http_exception \<Rightarrow> timestamp \<Rightarrow> content_job \<Rightarrow> content_job" where
  "failed_with e now j =
     j\<lparr>status := ''failed'', error := Some (str_exception e), completed_at := Some now\<rparr>"

definition job_history :: "string \<Rightarrow> event list \<Rightarrow> content_job option list" where
  "job_history jid evs = map (find_one jid) (stores evs)"

definition fields_present :: "content_job \<Rightarrow> bool \<times> bool \<times> bool" where
  "fields_present j = (analysis j \<noteq> None, optimization j \<noteq> None, variants j \<noteq> None)"

text \<open>
  The sample of the statistics, as the code takes it and as the specification names it,
  and a store to tell them apart: a hundred completed jobs of score 0, in the order of
  their creation, to which a newer job is added.
\<close>

definition completed_sample :: "content_job list \<Rightarrow> content_job list" where
  \<comment> \<open>what the code averages over: the first 100 completed jobs in the order of the store\<close>
  "completed_sample db = take 100 (filter (\<lambda>j. status j = ''completed'') db)"

definition most_recent_completed :: "content_job list \<Rightarrow> content_job list" where
  \<comment> \<open>what the specification names: the 100 completed jobs created last, newest first\<close>
  "most_recent_completed db =
     take 100 (sort_key (\<lambda>j. - int (created_at j)) (filter (\<lambda>j. status j = ''completed'') db))"

definition sample_average :: "(analysis_result \<Rightarrow> real) \<Rightarrow> content_job list \<Rightarrow> real" where
  "sample_average field sample = py_round2 (average (analysis_scores field sample))"

definition scored_job :: "nat \<Rightarrow> real \<Rightarrow> content_job" where
  \<comment> \<open>a completed job, created at time \<open>i\<close>, whose two scores are \<open>r\<close>\<close>
  "scored_job i r =
     (ContentJob (''job-'' @ digits i) i ''Title'' ''Text'' ''article'')
       \<lparr>status := ''completed'',
        analysis := Some \<lparr>readability_score = r, seo_score = r, tone = ''Neutral'',
                          keyword_density = [], word_count = 1, sentence_count = 1,
                          suggestions = [''Improve clarity'']\<rparr>,
        optimization := Some \<lparr>optimized_content = ''Text'', improvements = []\<rparr>,
        variants := Some \<lparr>variant_a = ''Text'', variant_b = ''Text'', differences = []\<rparr>,
        completed_at := Some (i + 1)\<rparr>"

definition older_jobs :: "content_job list" where
  "older_jobs = map (\<lambda>i. scored_job i 0) [0..<100]"

text \<open>
  Two services for the examples: one that is down, one that answers with a single
  numbered line.
\<close>

definition unavailable_llm :: llm where
  "unavailable_llm p = Inl ''service unavailable''"

definition one_line_llm :: llm where
  "one_line_llm p = Inr ''1. Only one''"

text \<open>
  The keyword densities: \<open>density\<close> is the exact \<open>100 * count / total\<close> of the
  specification, \<open>computed_density\<close> what the doubles make of it. The ranking holds the
  distinct tokens by computed density, the highest first.
\<close>

definition first_occurrences :: "'a list \<Rightarrow> 'a list" where
  \<comment> \<open>the distinct elements, in the order in which they are first met\<close>
  "first_occurrences ws = rev (remdups (rev ws))"

definition density :: "string list \<Rightarrow> string \<Rightarrow> real" where
  "density ws w = 100 * real (count_list ws w) / real (length ws)"

definition computed_density :: "string list \<Rightarrow> string \<Rightarrow> real" where
  "computed_density ws w = to_double (to_double (real (count_list ws w) / real (length ws)) * 100)"

definition ranked_keywords :: "string list \<Rightarrow> (string \<times> real) list" where
  \<comment> \<open>every distinct token with its computed density, by that density descending, ties
      in first-met order\<close>
  "ranked_keywords ws =
     sort_key (\<lambda>e. - snd e) (map (\<lambda>w. (w, computed_density ws w)) (first_occurrences ws))"

section \<open>Properties of the doubles\<close>

lemma ilog2_bounds: "0 < n \<Longrightarrow> 2 ^ ilog2 n \<le> n \<and> n < 2 ^ Suc (ilog2 n)"
proof (induction n rule: ilog2.induct)
  case (1 n)
  show ?case
  proof (cases "n < 2")
    case True
    with 1 show ?thesis by (simp add: ilog2.simps)
  next
    case False
    then have "0 < n div 2" by simp
    with 1 False have ih: "2 ^ ilog2 (n div 2) \<le> n div 2 \<and> n div 2 < 2 ^ Suc (ilog2 (n div 2))"
      by simp
    have eq: "ilog2 n = Suc (ilog2 (n div 2))" using False by (subst ilog2.simps) simp
    from ih show ?thesis unfolding eq by auto
  qed
qed

lemma pow2_pos: "0 < pow2 e"
  by (simp add: pow2_def)

lemma pow2_powi: "pow2 e = 2 powi e"
  by (simp add: pow2_def power_int_def power_inverse inverse_eq_divide power_one_over)

lemma pow2_mono: "a \<le> b \<Longrightarrow> pow2 a \<le> pow2 b"
  unfolding pow2_powi by (rule power_int_increasing) simp_all

lemma exponent_lower:
  assumes "0 < x"
  shows "pow2 (exponent x) \<le> x"
proof (cases "1 \<le> x")
  case True
  then have "0 < nat \<lfloor>x\<rfloor>" by simp
  then have "2 ^ ilog2 (nat \<lfloor>x\<rfloor>) \<le> nat \<lfloor>x\<rfloor>" using ilog2_bounds by blast
  then have "(2::real) ^ ilog2 (nat \<lfloor>x\<rfloor>) \<le> real (nat \<lfloor>x\<rfloor>)"
    by (metis of_nat_le_iff of_nat_numeral of_nat_power)
  also have "\<dots> \<le> x" using True by simp
  finally show ?thesis using True by (simp add: exponent_def pow2_def)
next
  case False
  define k where "k = ilog2 (nat \<lfloor>1 / x\<rfloor>)"
  from False assms have big: "1 < 1 / x" by simp
  then have pos: "0 < nat \<lfloor>1 / x\<rfloor>" by simp
  show ?thesis
  proof (cases "x * 2 ^ k = 1")
    case True
    then have "x = 1 / 2 ^ k" by (simp add: field_simps)
    moreover have "exponent x = - int k"
      using False True by (simp add: exponent_def k_def Let_def)
    ultimately show ?thesis by (simp add: pow2_def)
  next
    case ne: False
    have e: "exponent x = - int k - 1"
      using False ne by (simp add: exponent_def k_def Let_def)
    have "nat \<lfloor>1 / x\<rfloor> < 2 ^ Suc k" using ilog2_bounds [OF pos] by (simp add: k_def)
    then have "real (nat \<lfloor>1 / x\<rfloor>) + 1 \<le> 2 ^ Suc k"
      by (metis Suc_leI of_nat_Suc of_nat_le_iff of_nat_numeral of_nat_power add.commute)
    moreover have "1 / x < real (nat \<lfloor>1 / x\<rfloor>) + 1" using big by linarith
    ultimately have "1 / x \<le> 2 ^ Suc k" by linarith
    then have "1 / 2 ^ Suc k \<le> x" using assms by (simp add: field_simps)
    moreover have "pow2 (- int k - 1) = 1 / 2 ^ Suc k"
      by (simp add: pow2_def nat_add_distrib)
    ultimately show ?thesis unfolding e by simp
  qed
qed

lemma round_half_even_ge: "1 \<le> y \<Longrightarrow> 1 \<le> round_half_even y"
  by (simp add: round_half_even_def Let_def)

lemma to_double_pos:
  assumes "0 < x"
  shows "0 < to_double x"
proof -
  define u where "u = pow2 (exponent \<bar>x\<bar> - 52)"
  have u: "0 < u" unfolding u_def by (rule pow2_pos)
  have "u \<le> pow2 (exponent x)" unfolding u_def using assms by (simp add: pow2_mono)
  also have "\<dots> \<le> x" using assms by (rule exponent_lower)
  finally have "1 \<le> \<bar>x\<bar> / u" using u assms by simp
  then have "1 \<le> round_half_even (\<bar>x\<bar> / u)" by (rule round_half_even_ge)
  then have "0 < real_of_int (round_half_even (\<bar>x\<bar> / u)) * u" using u by simp
  then show ?thesis using assms unfolding to_double_def u_def by (simp add: Let_def)
qed

lemma quarter_as_double: "to_double (to_double (1 / 4) * 100) = 25"
  by (simp add: to_double_def exponent_def ilog2.simps pow2_def round_half_even_def Let_def)

lemma eighths_as_double:
  "to_double (to_double (3 / 8) * 100) = 75 / 2" "to_double (to_double (1 / 8) * 100) = 25 / 2"
  by (simp_all add: to_double_def exponent_def ilog2.simps pow2_def round_half_even_def Let_def)

lemma elevenths_as_double:
  "to_double (to_double (9 / 11) * 100) = 5757442705445237 / 70368744177664"
  "to_double (to_double (2 / 11) * 100) = 5117726849284655 / 281474976710656"
  by (simp_all add: to_double_def exponent_def ilog2.simps pow2_def round_half_even_def Let_def)

section \<open>Properties of the SEO score\<close>

lemma contains_sublist: "contains t s = sublist t s"
  by (induction s) (simp_all add: sublist_Cons_right)

lemma variety_points_bounds: "0 \<le> variety_points ws \<and> variety_points ws \<le> 30"
proof (cases "ws = []")
  case True
  then show ?thesis by (simp add: variety_points_def)
next
  case False
  define r where "r = real (card (set (map lower ws))) / real (length ws)"
  have "card (set (map lower ws)) \<le> length (map lower ws)" by (rule card_length)
  then have "real (card (set (map lower ws))) \<le> real (length ws)" by simp
  moreover from False have "0 < real (length ws)" by simp
  ultimately have "r \<le> 1" unfolding r_def by (simp add: divide_le_eq_1)
  moreover have "0 \<le> r" unfolding r_def by simp
  moreover have "variety_points ws = 30 * r"
    using False unfolding r_def variety_points_def by simp
  ultimately show ?thesis by simp
qed

lemma calculate_seo_score_sum:
  "calculate_seo_score text title' =
     min 100 (length_points (length (split_ws text)) + title_points text title'
              + structure_points text + variety_points (split_ws text))"
proof -
  have v: "(if length (split_ws text) > 0
            then real (length (remdups (map lower (split_ws text)))) / real (length (split_ws text)) * 30
            else 0) = variety_points (split_ws text)"
    by (simp add: variety_points_def length_remdups_card_conv)
  have "calculate_seo_score text title' =
     min 100 (length_points (length (split_ws text)) + title_points text title'
              + structure_points text
              + (if length (split_ws text) > 0
                 then real (length (remdups (map lower (split_ws text)))) / real (length (split_ws text)) * 30
                 else 0))"
    unfolding calculate_seo_score_def Let_def length_points_def title_points_def
      structure_points_def contains_sublist LF_def
    by simp
  then show ?thesis unfolding v .
qed



text \<open>
  Claim C10. For all text and title the SEO score is at least 10, hence never 0; the empty
  title is a substring of any content, so with it the score is at least 30, and the empty
  content with the empty title scores exactly 30.
\<close>

theorem seo_score_at_least_ten:
  "10 \<le> calculate_seo_score text title'
   \<and> calculate_seo_score text title' \<noteq> 0
   \<and> contains (lower []) (lower text)
   \<and> 30 \<le> calculate_seo_score text []
   \<and> calculate_seo_score [] [] = 30"
proof -
  have v: "0 \<le> variety_points (split_ws text)" using variety_points_bounds by blast
  have s: "0 \<le> structure_points text" by (simp add: structure_points_def)
  have l: "10 \<le> length_points (length (split_ws text))" by (simp add: length_points_def)
  have t: "0 \<le> title_points text title'" by (simp add: title_points_def)
  have t0: "title_points text [] = 20" by (simp add: title_points_def lower_def)
  have ten: "10 \<le> calculate_seo_score text title'"
    using v s l t by (simp add: calculate_seo_score_sum)
  have thirty: "30 \<le> calculate_seo_score text []"
    using v s l t0 by (simp add: calculate_seo_score_sum)
  have c: "contains (lower []) (lower text)"
    by (simp add: contains_sublist lower_def)
  have e: "calculate_seo_score [] [] = 30"
    by (simp add: calculate_seo_score_def split_ws_def runs_def lower_def)
  from ten thirty c e show ?thesis by simp
qed

section \<open>Properties of the readability score\<close>

lemma runs_from_map:
  "runs_from P (map f cur) (map f s) = map (map f) (runs_from (\<lambda>c. P (f c)) cur s)"
proof (induction s arbitrary: cur)
  case Nil
  then show ?case by simp
next
  case (Cons a s)
  have app: "map f cur @ [f a] = map f (cur @ [a])" by simp
  show ?case
    using Cons.IH [of "cur @ [a]"] Cons.IH [of "[]"]
    unfolding list.map runs_from.simps app by simp
qed

lemma is_vowel_lower_char: "is_vowel (lower_char c) = (c \<in> set ''aeiouyAEIOUY'')"
  by (simp add: is_vowel_def lower_char_def)

lemma syllables_lower: "length (runs is_vowel (lower word)) = syllable_units word"
proof -
  have "runs is_vowel (lower word) = map (map lower_char) (runs (\<lambda>c. is_vowel (lower_char c)) word)"
    unfolding runs_def lower_def using runs_from_map [of is_vowel lower_char "[]" word] by simp
  then show ?thesis by (simp add: syllable_units_def is_vowel_lower_char)
qed

lemma re_split_from_length: "1 \<le> length (re_split_from P prev cur s)"
  by (induction s arbitrary: prev cur) simp_all

lemma re_split_from_no_separator:
  "filter P s = [] \<Longrightarrow> re_split_from P prev cur s = [cur @ s]"
  by (induction s arbitrary: prev cur) (simp_all split: if_splits)

text \<open>
  Claim C4, as amended. For all text the readability score is in \<open>[0, 100]\<close>; it is 0
  whenever the text has no words; otherwise, also when the text has no sentence
  terminator, it is the Flesch formula \<open>206.835 - 1.015 * (words / sentences) - 84.6 *
  (syllables / words)\<close> clamped to \<open>[0, 100]\<close>. The sentences are the segments between
  the runs of \<open>.\<close>, \<open>!\<close> and \<open>?\<close>: at least one, and exactly one without a terminator.
  A syllable is a maximal run of characters in \<open>{a, e, i, o, u, y}\<close>, in either case.
\<close>

theorem readability_range_and_formula:
  "0 \<le> calculate_readability text \<and> calculate_readability text \<le> 100
   \<and> (split_ws text = [] \<longrightarrow> calculate_readability text = 0)
   \<and> 1 \<le> sentence_segments text
   \<and> (filter is_terminator text = [] \<longrightarrow> sentence_segments text = 1)
   \<and> (split_ws text \<noteq> [] \<longrightarrow>
        calculate_readability text =
          max 0 (min 100 (flesch (length (split_ws text)) (sentence_segments text)
                            (sum_list (map syllable_units (split_ws text))))))"
proof -
  have seg: "1 \<le> sentence_segments text"
    unfolding sentence_segments_def re_split_def by (rule re_split_from_length)
  have one: "filter is_terminator text = [] \<longrightarrow> sentence_segments text = 1"
    unfolding sentence_segments_def re_split_def by (simp add: re_split_from_no_separator)
  have syl: "map (\<lambda>word. length (runs is_vowel (lower word))) (split_ws text)
             = map syllable_units (split_ws text)"
    by (simp add: syllables_lower)
  have empty: "split_ws text = [] \<longrightarrow> calculate_readability text = 0"
    by (simp add: calculate_readability_def Let_def)
  have formula: "split_ws text \<noteq> [] \<longrightarrow>
        calculate_readability text =
          max 0 (min 100 (flesch (length (split_ws text)) (sentence_segments text)
                            (sum_list (map syllable_units (split_ws text)))))"
  proof -
    from seg have "re_split is_terminator text \<noteq> []"
      unfolding sentence_segments_def by auto
    then show ?thesis
      unfolding calculate_readability_def Let_def syl flesch_def sentence_segments_def
      by simp
  qed
  have range: "0 \<le> calculate_readability text \<and> calculate_readability text \<le> 100"
  proof (cases "split_ws text = []")
    case True
    with empty show ?thesis by simp
  next
    case False
    with formula show ?thesis by simp
  qed
  from range empty seg one formula show ?thesis by blast
qed

theorem readability_range_and_formula_witness:
  "split_ws [] = [] \<and> calculate_readability [] = 0
   \<and> split_ws ''hello world'' \<noteq> [] \<and> filter is_terminator ''hello world'' = []
   \<and> sentence_segments ''hello world'' = 1
   \<and> calculate_readability ''hello world'' = 77.905"
proof -
  have a: "split_ws [] = []" by (simp add: split_ws_def runs_def)
  have b: "split_ws ''hello world'' = [''hello'', ''world'']"
    by (simp add: split_ws_def runs_def is_space_def)
  have c: "filter is_terminator ''hello world'' = []" by (simp add: is_terminator_def)
  have d: "sum_list (map syllable_units [''hello'', ''world'']) = 3"
    by (simp add: syllable_units_def runs_def)
  have e: "calculate_readability [] = 0"
    using readability_range_and_formula [of "[]"] a by blast
  have f: "sentence_segments ''hello world'' = 1"
    using readability_range_and_formula [of "''hello world''"] c by blast
  have "split_ws ''hello world'' \<noteq> []" using b by simp
  then have "calculate_readability ''hello world'' =
          max 0 (min 100 (flesch (length (split_ws ''hello world'')) (sentence_segments ''hello world'')
                            (sum_list (map syllable_units (split_ws ''hello world'')))))"
    using readability_range_and_formula [of "''hello world''"] by blast
  then have g: "calculate_readability ''hello world'' = 77.905"
    unfolding b d f flesch_def by simp
  from a b c e f g show ?thesis by simp
qed

text \<open>
  Claim C4 as stated fails: the text \<open>hello world\<close> has words and no sentence
  terminator, and its score is 77.905, not 0.
\<close>

theorem readability_no_terminator_counterexample:
  "split_ws ''hello world'' \<noteq> [] \<and> filter is_terminator ''hello world'' = []
   \<and> calculate_readability ''hello world'' = 77.905
   \<and> calculate_readability ''hello world'' \<noteq> 0"
  by (simp add: calculate_readability_def split_ws_def runs_def is_space_def re_split_def
      is_terminator_def is_vowel_def lower_def lower_char_def)

section \<open>Properties of the pipeline\<close>

lemma find_one_update_one:
  assumes "\<And>j. job_id (f j) = job_id j"
  shows "find_one jid (update_one jid f db) = map_option f (find_one jid db)"
  by (induction db) (simp_all add: find_one_def assms)

lemma find_one_submit_content:
  assumes "jid \<notin> job_id ` set db"
  shows "find_one jid (submit_content jid t0 inp db)
         = Some (ContentJob jid t0 (title inp) (content inp) (content_type inp))"
  using assms
  by (induction db) (auto simp: find_one_def submit_content_def ContentJob_def)

lemma find_one_job_failed:
  "find_one jid (job_failed e now jid db) = map_option (failed_with e now) (find_one jid db)"
  unfolding job_failed_def failed_with_def by (rule find_one_update_one) simp

lemma job_history_process:
  assumes "find_one jid db0 = Some j0"
  shows "job_history jid (process_content_job llm now jid inp db0) =
     (let j1 = j0\<lparr>analysis := Some (run_analyze llm inp)\<rparr>
      in case run_optimize llm inp of
           Inl e \<Rightarrow> [Some j1, Some (failed_with e now j1)]
         | Inr opt \<Rightarrow>
             let j2 = j1\<lparr>optimization := Some opt\<rparr>
             in (case run_vary llm inp opt of
                   Inl e \<Rightarrow> [Some j1, Some j2, Some (failed_with e now j2)]
                 | Inr v \<Rightarrow> [Some j1, Some j2,
                             Some (j2\<lparr>variants := Some v, status := ''completed'',
                                      completed_at := Some now\<rparr>)]))"
  using assms
  by (simp add: job_history_def process_content_job_def Let_def run_analyze_def run_optimize_def
      run_vary_def find_one_update_one find_one_job_failed split: sum.splits)

lemma started_process:
  "started (process_content_job llm now jid inp db0) =
     (case run_optimize llm inp of
        Inl e \<Rightarrow> [Analyze, Optimize]
      | Inr opt \<Rightarrow> [Analyze, Optimize, Vary])"
  by (simp add: process_content_job_def Let_def run_analyze_def run_optimize_def
      split: sum.splits)


text \<open>
  Claim C1. A job is submitted under a fresh id and processed. In every state the store
  goes through, the job has its optimization only if it has its analysis, its variants only
  if it has its optimization, and the status \<open>completed\<close> only with all three. The fields
  are set in the order analysis, optimization, variants, one per write; when a stage
  raises, the next write sets the status \<open>failed\<close> and no later stage is started; the
  status becomes \<open>completed\<close> in the write that sets the variants.
\<close>

theorem pipeline_fields_in_order:
  assumes "jid \<notin> job_id ` set db"
  shows "let evs = process_content_job llm now jid inp (submit_content jid t0 inp db);
             snapshots = map (map_option (\<lambda>j. (fields_present j, status j))) (job_history jid evs)
         in (\<forall>d \<in> set (stores evs). \<exists>j. find_one jid d = Some j
                \<and> (optimization j \<noteq> None \<longrightarrow> analysis j \<noteq> None)
                \<and> (variants j \<noteq> None \<longrightarrow> optimization j \<noteq> None)
                \<and> (status j = ''completed'' \<longrightarrow>
                      analysis j \<noteq> None \<and> optimization j \<noteq> None \<and> variants j \<noteq> None))
            \<and> (case run_optimize llm inp of
                  Inl e \<Rightarrow>
                    started evs = [Analyze, Optimize]
                    \<and> snapshots = [Some ((True, False, False), ''processing''),
                                   Some ((True, False, False), ''failed'')]
                | Inr opt \<Rightarrow>
                    started evs = [Analyze, Optimize, Vary]
                    \<and> (case run_vary llm inp opt of
                          Inl e \<Rightarrow>
                            snapshots = [Some ((True, False, False), ''processing''),
                                         Some ((True, True, False), ''processing''),
                                         Some ((True, True, False), ''failed'')]
                        | Inr v \<Rightarrow>
                            snapshots = [Some ((True, False, False), ''processing''),
                                         Some ((True, True, False), ''processing''),
                                         Some ((True, True, True), ''completed'')]))"
proof -
  define db0 where "db0 = submit_content jid t0 inp db"
  define j0 where "j0 = ContentJob jid t0 (title inp) (content inp) (content_type inp)"
  define evs where "evs = process_content_job llm now jid inp db0"
  have j0: "find_one jid db0 = Some j0"
    unfolding db0_def j0_def using assms by (rule find_one_submit_content)
  have fresh: "analysis j0 = None" "optimization j0 = None" "variants j0 = None"
    "status j0 = ''processing''"
    by (simp_all add: j0_def ContentJob_def)
  note hist = job_history_process [OF j0, of llm now inp, folded evs_def]
  note st = started_process [of llm now jid inp db0, folded evs_def]
  have inv: "\<forall>d \<in> set (stores evs). \<exists>j. find_one jid d = Some j
                \<and> (optimization j \<noteq> None \<longrightarrow> analysis j \<noteq> None)
                \<and> (variants j \<noteq> None \<longrightarrow> optimization j \<noteq> None)
                \<and> (status j = ''completed'' \<longrightarrow>
                      analysis j \<noteq> None \<and> optimization j \<noteq> None \<and> variants j \<noteq> None)"
  proof
    fix d assume "d \<in> set (stores evs)"
    then have "find_one jid d \<in> set (job_history jid evs)"
      by (simp add: job_history_def)
    then show "\<exists>j. find_one jid d = Some j
                \<and> (optimization j \<noteq> None \<longrightarrow> analysis j \<noteq> None)
                \<and> (variants j \<noteq> None \<longrightarrow> optimization j \<noteq> None)
                \<and> (status j = ''completed'' \<longrightarrow>
                      analysis j \<noteq> None \<and> optimization j \<noteq> None \<and> variants j \<noteq> None)"
      unfolding hist using fresh
      by (auto simp: Let_def failed_with_def split: sum.splits)
  qed
  have order: "case run_optimize llm inp of
                  Inl e \<Rightarrow>
                    started evs = [Analyze, Optimize]
                    \<and> map (map_option (\<lambda>j. (fields_present j, status j))) (job_history jid evs)
                        = [Some ((True, False, False), ''processing''),
                           Some ((True, False, False), ''failed'')]
                | Inr opt \<Rightarrow>
                    started evs = [Analyze, Optimize, Vary]
                    \<and> (case run_vary llm inp opt of
                          Inl e \<Rightarrow>
                            map (map_option (\<lambda>j. (fields_present j, status j))) (job_history jid evs)
                              = [Some ((True, False, False), ''processing''),
                                 Some ((True, True, False), ''processing''),
                                 Some ((True, True, False), ''failed'')]
                        | Inr v \<Rightarrow>
                            map (map_option (\<lambda>j. (fields_present j, status j))) (job_history jid evs)
                              = [Some ((True, False, False), ''processing''),
                                 Some ((True, True, False), ''processing''),
                                 Some ((True, True, True), ''completed'')])"
    unfolding hist st using fresh
    by (simp add: Let_def failed_with_def fields_present_def split: sum.splits)
  from inv order show ?thesis
    unfolding Let_def evs_def db0_def by simp
qed


theorem pipeline_fields_in_order_witness:
  "''j1'' \<notin> job_id ` set ([] :: content_job list)
   \<and> map (map_option (\<lambda>j. (fields_present j, status j)))
         (job_history ''j1''
            (process_content_job (\<lambda>p. Inr ''TONE: Warm'') 7 ''j1''
               \<lparr>title = ''Hi'', content = ''Hello world.'', content_type = ''article''\<rparr>
               (submit_content ''j1'' 3
                  \<lparr>title = ''Hi'', content = ''Hello world.'', content_type = ''article''\<rparr> [])))
       = [Some ((True, False, False), ''processing''),
          Some ((True, True, False), ''processing''),
          Some ((True, True, True), ''completed'')]"
proof -
  have h: "''j1'' \<notin> job_id ` set ([] :: content_job list)" by simp
  show ?thesis
    using h pipeline_fields_in_order [OF h, of "\<lambda>p. Inr ''TONE: Warm''" 7
        "\<lparr>title = ''Hi'', content = ''Hello world.'', content_type = ''article''\<rparr>" 3]
    by (simp add: Let_def run_optimize_def optimize_content_with_ai_def run_vary_def
        generate_variants_with_ai_def)
qed

lemma stores_process_nonempty: "stores (process_content_job llm now jid inp db0) \<noteq> []"
  by (simp add: process_content_job_def Let_def)

lemma last_job_history:
  "find_one jid (last (stores (process_content_job llm now jid inp db0)))
   = last (job_history jid (process_content_job llm now jid inp db0))"
  unfolding job_history_def by (simp add: last_map stores_process_nonempty)

text \<open>
  Claim C2. When the service fails in the optimize stage, the job ends with the status
  \<open>failed\<close>, its analysis kept, no optimization and no variants, a non-empty error text
  and the completion time set; the stage of the variants is never started and nothing is
  written after the failure.
\<close>

theorem optimize_failure_fails_job:
  assumes "jid \<notin> job_id ` set db"
    and "llm (OptimizePrompt (content_type inp) (title inp) (content inp)
                (readability_score (run_analyze llm inp)) (seo_score (run_analyze llm inp))
                (tone (run_analyze llm inp))) = Inl e"
  shows "let evs = process_content_job llm now jid inp (submit_content jid t0 inp db)
         in started evs = [Analyze, Optimize]
            \<and> length (stores evs) = 2
            \<and> (\<exists>j. find_one jid (last (stores evs)) = Some j
                  \<and> status j = ''failed''
                  \<and> analysis j = Some (run_analyze llm inp)
                  \<and> optimization j = None
                  \<and> variants j = None
                  \<and> error j = Some (''500: Optimization failed: '' @ e)
                  \<and> error j \<noteq> Some []
                  \<and> completed_at j = Some now)"
proof -
  define db0 where "db0 = submit_content jid t0 inp db"
  define j0 where "j0 = ContentJob jid t0 (title inp) (content inp) (content_type inp)"
  define evs where "evs = process_content_job llm now jid inp db0"
  have j0: "find_one jid db0 = Some j0"
    unfolding db0_def j0_def using assms(1) by (rule find_one_submit_content)
  have opt: "run_optimize llm inp = Inl (HTTPException 500 (''Optimization failed: '' @ e))"
    unfolding run_optimize_def optimize_content_with_ai_def using assms(2) by simp
  have hist: "job_history jid evs =
      [Some (j0\<lparr>analysis := Some (run_analyze llm inp)\<rparr>),
       Some (failed_with (HTTPException 500 (''Optimization failed: '' @ e)) now
               (j0\<lparr>analysis := Some (run_analyze llm inp)\<rparr>))]"
    unfolding evs_def using job_history_process [OF j0, of llm now inp] opt
    by (simp add: Let_def)
  have st: "started evs = [Analyze, Optimize]"
    unfolding evs_def using started_process [of llm now jid inp db0] opt by simp
  have len: "length (stores evs) = 2"
    using hist unfolding job_history_def by (metis length_map length_Cons list.size(3) numeral_2_eq_2)
  have last: "find_one jid (last (stores evs)) =
       Some (failed_with (HTTPException 500 (''Optimization failed: '' @ e)) now
               (j0\<lparr>analysis := Some (run_analyze llm inp)\<rparr>))"
    unfolding evs_def last_job_history using hist unfolding evs_def by simp
  have "\<exists>j. find_one jid (last (stores evs)) = Some j
                  \<and> status j = ''failed''
                  \<and> analysis j = Some (run_analyze llm inp)
                  \<and> optimization j = None
                  \<and> variants j = None
                  \<and> error j = Some (''500: Optimization failed: '' @ e)
                  \<and> error j \<noteq> Some []
                  \<and> completed_at j = Some now"
    unfolding last
    by (simp add: failed_with_def j0_def ContentJob_def digits.simps)
  with st len show ?thesis
    unfolding Let_def evs_def db0_def by simp
qed

theorem optimize_failure_fails_job_witness:
  "''j1'' \<notin> job_id ` set ([] :: content_job list)
   \<and> (\<exists>j. find_one ''j1''
             (last (stores
                (process_content_job
                   (\<lambda>p. case p of OptimizePrompt a b c d e f \<Rightarrow> Inl ''timeout'' | _ \<Rightarrow> Inr ''TONE: Warm'')
                   7 ''j1''
                   \<lparr>title = ''Hi'', content = ''Hello world.'', content_type = ''article''\<rparr>
                   (submit_content ''j1'' 3
                      \<lparr>title = ''Hi'', content = ''Hello world.'', content_type = ''article''\<rparr> []))))
           = Some j
         \<and> status j = ''failed'' \<and> analysis j \<noteq> None \<and> optimization j = None
         \<and> variants j = None \<and> error j = Some ''500: Optimization failed: timeout''
         \<and> completed_at j = Some 7)"
proof -
  have h: "''j1'' \<notin> job_id ` set ([] :: content_job list)" by simp
  show ?thesis
    using h optimize_failure_fails_job [OF h,
        of "\<lambda>p. case p of OptimizePrompt a b c d e f \<Rightarrow> Inl ''timeout'' | _ \<Rightarrow> Inr ''TONE: Warm''"
        "\<lparr>title = ''Hi'', content = ''Hello world.'', content_type = ''article''\<rparr>"
        "''timeout''" 7 3]
    by (auto simp: Let_def)
qed

section \<open>Properties of the analyze stage\<close>

lemma analyze_suggestions:
  "suggestions (analyze_content_with_ai llm c t ct) =
     (case llm (AnalysisPrompt ct t (take 500 c)) of
        Inr response \<Rightarrow> parse_suggestions response
      | Inl e \<Rightarrow> [''Improve readability'', ''Enhance SEO'', ''Strengthen engagement''])"
  by (simp add: analyze_content_with_ai_def Let_def split: sum.splits)

lemma analyze_tone:
  "tone (analyze_content_with_ai llm c t ct) =
     (case llm (AnalysisPrompt ct t (take 500 c)) of
        Inr response \<Rightarrow> parse_tone response
      | Inl e \<Rightarrow> ''Unable to analyze'')"
  by (simp add: analyze_content_with_ai_def Let_def split: sum.splits)

lemma analyze_counts:
  "word_count (analyze_content_with_ai llm c t ct) = length (split_ws c)"
  "sentence_count (analyze_content_with_ai llm c t ct) = length (re_split is_terminator c)"
  "keyword_density (analyze_content_with_ai llm c t ct) = extract_keywords c"
  by (simp_all add: analyze_content_with_ai_def Let_def split: sum.splits prod.splits)

text \<open>
  Claim C3. When the service fails in the analyze stage, the failure is absorbed: the
  analysis is still produced, with the tone \<open>Unable to analyze\<close> and the three fixed
  fallback suggestions; it is stored, the job stays \<open>processing\<close> with no error, and
  the optimize stage is started next. The job ends \<open>failed\<close> only if the optimize stage
  or the stage of the variants raises.
\<close>

theorem analyze_failure_absorbed:
  assumes "jid \<notin> job_id ` set db"
    and "llm (AnalysisPrompt (content_type inp) (title inp) (take 500 (content inp))) = Inl e"
  shows "let a = run_analyze llm inp;
             evs = process_content_job llm now jid inp (submit_content jid t0 inp db)
         in tone a = ''Unable to analyze''
            \<and> suggestions a = [''Improve readability'', ''Enhance SEO'', ''Strengthen engagement'']
            \<and> (\<exists>db1 rest. evs = Started Analyze # Stored db1 # Started Optimize # rest
                  \<and> (\<exists>j. find_one jid db1 = Some j \<and> status j = ''processing''
                        \<and> error j = None \<and> analysis j = Some a))
            \<and> ((\<exists>j. find_one jid (last (stores evs)) = Some j \<and> status j = ''failed'')
                 \<longleftrightarrow> (isl (run_optimize llm inp)
                      \<or> (\<exists>opt. run_optimize llm inp = Inr opt \<and> isl (run_vary llm inp opt))))"
proof -
  define db0 where "db0 = submit_content jid t0 inp db"
  define j0 where "j0 = ContentJob jid t0 (title inp) (content inp) (content_type inp)"
  define evs where "evs = process_content_job llm now jid inp db0"
  define a where "a = run_analyze llm inp"
  have j0: "find_one jid db0 = Some j0"
    unfolding db0_def j0_def using assms(1) by (rule find_one_submit_content)
  have tone: "tone a = ''Unable to analyze''"
    unfolding a_def run_analyze_def analyze_tone using assms(2) by simp
  have sugg: "suggestions a = [''Improve readability'', ''Enhance SEO'', ''Strengthen engagement'']"
    unfolding a_def run_analyze_def analyze_suggestions using assms(2) by simp
  define db1 where "db1 = update_one jid (\<lambda>j. j\<lparr>analysis := Some a\<rparr>) db0"
  have "find_one jid db1 = Some (j0\<lparr>analysis := Some a\<rparr>)"
    unfolding db1_def using j0 by (simp add: find_one_update_one)
  then have j1: "\<exists>j. find_one jid db1 = Some j \<and> status j = ''processing''
                        \<and> error j = None \<and> analysis j = Some a"
    by (simp add: j0_def ContentJob_def)
  have "\<exists>rest. evs = Started Analyze # Stored db1 # Started Optimize # rest"
    unfolding evs_def db1_def a_def run_analyze_def process_content_job_def Let_def by simp
  with j1 have cont: "\<exists>db1 rest. evs = Started Analyze # Stored db1 # Started Optimize # rest
                  \<and> (\<exists>j. find_one jid db1 = Some j \<and> status j = ''processing''
                        \<and> error j = None \<and> analysis j = Some a)"
    by blast
  have fin: "(\<exists>j. find_one jid (last (stores evs)) = Some j \<and> status j = ''failed'')
                 \<longleftrightarrow> (isl (run_optimize llm inp)
                      \<or> (\<exists>opt. run_optimize llm inp = Inr opt \<and> isl (run_vary llm inp opt)))"
    unfolding evs_def last_job_history job_history_process [OF j0]
    by (auto simp: Let_def failed_with_def j0_def ContentJob_def split: sum.splits)
  from tone sugg cont fin show ?thesis
    unfolding Let_def evs_def db0_def a_def by simp
qed

theorem analyze_failure_absorbed_witness:
  "''j1'' \<notin> job_id ` set ([] :: content_job list)
   \<and> tone (run_analyze (\<lambda>p. Inl ''down'')
              \<lparr>title = ''Hi'', content = ''Hello world.'', content_type = ''article''\<rparr>)
       = ''Unable to analyze''
   \<and> suggestions (run_analyze (\<lambda>p. Inl ''down'')
              \<lparr>title = ''Hi'', content = ''Hello world.'', content_type = ''article''\<rparr>)
       = [''Improve readability'', ''Enhance SEO'', ''Strengthen engagement'']"
proof -
  have h: "''j1'' \<notin> job_id ` set ([] :: content_job list)" by simp
  show ?thesis
    using h analyze_failure_absorbed [OF h, of "\<lambda>p. Inl ''down''"
        "\<lparr>title = ''Hi'', content = ''Hello world.'', content_type = ''article''\<rparr>" "''down''" 7 3]
    by (simp add: Let_def)
qed

text \<open>
  Claim C5, as amended. For the title \<open>Hello World\<close>, the content
  \<open>Hello world. This is great!\<close> and the type \<open>article\<close>, whatever the service answers,
  the analysis has the word count 5 and the keyword densities of exactly \<open>hello\<close>,
  \<open>world\<close>, \<open>this\<close> and \<open>great\<close>, 25.0 each.
\<close>

theorem example_analysis_counts:
  "word_count (analyze_content_with_ai llm ''Hello world. This is great!'' ''Hello World'' ''article'') = 5
   \<and> keyword_density (analyze_content_with_ai llm ''Hello world. This is great!'' ''Hello World'' ''article'')
       = [(''hello'', 25), (''world'', 25), (''this'', 25), (''great'', 25)]"
proof -
  have "length (split_ws ''Hello world. This is great!'') = 5"
    by (simp add: split_ws_def runs_def is_space_def)
  moreover have "extract_keywords ''Hello world. This is great!''
       = [(''hello'', 25), (''world'', 25), (''this'', 25), (''great'', 25)]"
    by (simp add: extract_keywords_def keyword_tokens_def runs_def is_word_char_def is_upper_def
        is_lower_def is_digit_def lower_def lower_char_def sorted_reverse_def quarter_as_double)
  ultimately show ?thesis by (simp add: analyze_counts)
qed

text \<open>
  Claim C5 as stated fails on this input: the sentence count is 3, the empty segment
  after the last \<open>!\<close> being counted, and the keywords are four, at 25.0 each, since
  \<open>hello\<close> and \<open>world\<close> are longer than three characters too.
\<close>

theorem example_analysis_counterexample:
  "sentence_count (analyze_content_with_ai unavailable_llm ''Hello world. This is great!''
                     ''Hello World'' ''article'') = 3
   \<and> map fst (keyword_density (analyze_content_with_ai unavailable_llm ''Hello world. This is great!''
                     ''Hello World'' ''article''))
       = [''hello'', ''world'', ''this'', ''great'']
   \<and> map snd (keyword_density (analyze_content_with_ai unavailable_llm ''Hello world. This is great!''
                     ''Hello World'' ''article''))
       = [25, 25, 25, 25]"
proof -
  have "length (re_split is_terminator ''Hello world. This is great!'') = 3"
    by (simp add: re_split_def is_terminator_def)
  moreover have "extract_keywords ''Hello world. This is great!''
       = [(''hello'', 25), (''world'', 25), (''this'', 25), (''great'', 25)]"
    by (simp add: extract_keywords_def keyword_tokens_def runs_def is_word_char_def is_upper_def
        is_lower_def is_digit_def lower_def lower_char_def sorted_reverse_def quarter_as_double)
  ultimately show ?thesis by (simp add: analyze_counts)
qed

text \<open>
  Claim C6, as amended. For every response of the service in the analyze stage the
  suggestions are between one and three: the three fixed fallback strings when the
  response has no numbered line, the first three numbered lines when it has three or
  more, and the one or two numbered lines themselves when it has only those.
\<close>

theorem suggestions_one_to_three:
  assumes "llm (AnalysisPrompt ct t (take 500 c)) = Inr response"
  shows "let found = findall_numbered response;
             s = suggestions (analyze_content_with_ai llm c t ct)
         in 1 \<le> length s \<and> length s \<le> 3
            \<and> (found = [] \<longrightarrow>
                 s = [''Improve clarity'', ''Enhance engagement'', ''Optimize structure''])
            \<and> (found \<noteq> [] \<longrightarrow> s = take 3 found)
            \<and> (3 \<le> length found \<longrightarrow> length s = 3)
            \<and> (found \<noteq> [] \<and> length found < 3 \<longrightarrow> s = found)"
proof -
  have s: "suggestions (analyze_content_with_ai llm c t ct) = parse_suggestions response"
    unfolding analyze_suggestions using assms by simp
  show ?thesis
    unfolding Let_def s parse_suggestions_def
    by (cases "findall_numbered response") (simp_all add: min_def)
qed

theorem suggestions_one_to_three_witness:
  "suggestions (analyze_content_with_ai (\<lambda>p. Inr ''1. a 2. b 3. c 4. d'') ''Hello'' ''Hi'' ''article'')
     = [''a 2. b 3. c 4. d'']
   \<and> suggestions (analyze_content_with_ai (\<lambda>p. Inr ''1. a\<newline>2. b\<newline>3. c\<newline>4. d'') ''Hello'' ''Hi'' ''article'')
     = [''a'', ''b'', ''c'']
   \<and> suggestions (analyze_content_with_ai (\<lambda>p. Inr ''none'') ''Hello'' ''Hi'' ''article'')
     = [''Improve clarity'', ''Enhance engagement'', ''Optimize structure'']"
proof -
  have m: "findall_numbered ''1. a 2. b 3. c 4. d'' = [''a 2. b 3. c 4. d'']"
    "findall_numbered ''1. a\<newline>2. b\<newline>3. c\<newline>4. d'' = [''a'', ''b'', ''c'', ''d'']"
    "findall_numbered ''none'' = []"
    by (simp_all add: match_numbered_def is_digit_def match_ws_dot_plus_def is_space_def
        match_dot_plus_def LF_def)
  show ?thesis
    using suggestions_one_to_three [of "\<lambda>p. Inr ''1. a 2. b 3. c 4. d''" "''article''" "''Hi''" "''Hello''" "''1. a 2. b 3. c 4. d''"]
      suggestions_one_to_three [of "\<lambda>p. Inr ''1. a\<newline>2. b\<newline>3. c\<newline>4. d''" "''article''" "''Hi''" "''Hello''" "''1. a\<newline>2. b\<newline>3. c\<newline>4. d''"]
      suggestions_one_to_three [of "\<lambda>p. Inr ''none''" "''article''" "''Hi''" "''Hello''" "''none''"]
    unfolding Let_def m by simp
qed

text \<open>
  Claim C6 as stated fails: a response with one numbered line gives one suggestion, not
  three.
\<close>

theorem suggestions_fewer_than_three_counterexample:
  "suggestions (analyze_content_with_ai one_line_llm ''Hello'' ''Hi'' ''article'')
     = [''Only one'']
   \<and> length (suggestions (analyze_content_with_ai one_line_llm ''Hello'' ''Hi'' ''article'')) \<noteq> 3"
proof -
  have "findall_numbered ''1. Only one'' = [''Only one'']"
    by (simp add: match_numbered_def is_digit_def match_ws_dot_plus_def is_space_def
        match_dot_plus_def LF_def)
  then show ?thesis by (simp add: analyze_suggestions parse_suggestions_def one_line_llm_def)
qed

section \<open>Properties of the statistics\<close>

lemma py_round2_int: "py_round2 (of_int n) = of_int n"
  by (simp add: py_round2_def Let_def)

lemma get_stats_sample:
  "avg_readability_score (get_stats db) = sample_average readability_score (completed_sample db)"
  "avg_seo_score (get_stats db) = sample_average seo_score (completed_sample db)"
  by (simp_all add: get_stats_def Let_def sample_average_def completed_sample_def average_def
      analysis_scores_def)

lemma completed_sample_append:
  assumes "100 \<le> length (filter (\<lambda>j. status j = ''completed'') db)"
  shows "completed_sample (db @ later) = completed_sample db"
  using assms by (simp add: completed_sample_def)

lemma scored_job_fields:
  "status (scored_job i r) = ''completed''"
  "created_at (scored_job i r) = i"
  "analysis (scored_job i r) \<noteq> None"
  "readability_score (the (analysis (scored_job i r))) = r"
  "seo_score (the (analysis (scored_job i r))) = r"
  by (simp_all add: scored_job_def ContentJob_def)

lemma older_jobs_completed:
  "filter (\<lambda>j. status j = ''completed'') older_jobs = older_jobs" "length older_jobs = 100"
  by (simp_all add: older_jobs_def scored_job_fields)

lemma analysis_scores_zero:
  assumes "set xs \<subseteq> set older_jobs"
  shows "analysis_scores readability_score xs = replicate (length xs) 0"
  using assms
proof (induction xs)
  case Nil
  then show ?case by (simp add: analysis_scores_def)
next
  case (Cons x xs)
  then obtain i where "x = scored_job i 0" by (auto simp: older_jobs_def)
  with Cons show ?case by (simp add: analysis_scores_def scored_job_fields)
qed

lemma sort_key_snoc_least:
  assumes "\<forall>x \<in> set xs. f y < f x"
  shows "sort_key f (xs @ [y]) = y # sort_key f xs"
  using assms
proof (induction xs)
  case Nil
  then show ?case by simp
next
  case (Cons a xs)
  then have "\<not> f a \<le> f y" by (simp add: not_le)
  with Cons show ?case by simp
qed

text \<open>
  Claim C9, as amended. The statistics are the number of jobs, the numbers of completed,
  processing and failed jobs, and the averages, rounded to two decimals, of the
  readability and SEO scores over a sample of at most 100 completed jobs: the first 100
  in the order the store returns them, so that jobs after them do not count. On the empty
  store every count is 0 and both averages are 0.
\<close>

theorem get_stats_counts_and_averages:
  "total_jobs (get_stats db) = length db
   \<and> completed_jobs (get_stats db) = length (filter (\<lambda>j. status j = ''completed'') db)
   \<and> processing_jobs (get_stats db) = length (filter (\<lambda>j. status j = ''processing'') db)
   \<and> failed_jobs (get_stats db) = length (filter (\<lambda>j. status j = ''failed'') db)
   \<and> avg_readability_score (get_stats db)
       = py_round2 (average (analysis_scores readability_score (completed_sample db)))
   \<and> avg_seo_score (get_stats db)
       = py_round2 (average (analysis_scores seo_score (completed_sample db)))
   \<and> length (completed_sample db) \<le> 100
   \<and> (100 \<le> length (filter (\<lambda>j. status j = ''completed'') db) \<longrightarrow>
        avg_readability_score (get_stats (db @ later)) = avg_readability_score (get_stats db)
        \<and> avg_seo_score (get_stats (db @ later)) = avg_seo_score (get_stats db))
   \<and> get_stats [] = \<lparr>total_jobs = 0, completed_jobs = 0, processing_jobs = 0, failed_jobs = 0,
                       avg_readability_score = 0, avg_seo_score = 0\<rparr>"
proof -
  have counts: "total_jobs (get_stats db) = length db
   \<and> completed_jobs (get_stats db) = length (filter (\<lambda>j. status j = ''completed'') db)
   \<and> processing_jobs (get_stats db) = length (filter (\<lambda>j. status j = ''processing'') db)
   \<and> failed_jobs (get_stats db) = length (filter (\<lambda>j. status j = ''failed'') db)"
    by (simp add: get_stats_def Let_def count_documents_def)
  have avgs: "avg_readability_score (get_stats db)
       = py_round2 (average (analysis_scores readability_score (completed_sample db)))
   \<and> avg_seo_score (get_stats db)
       = py_round2 (average (analysis_scores seo_score (completed_sample db)))"
    by (simp add: get_stats_sample sample_average_def)
  have len: "length (completed_sample db) \<le> 100" by (simp add: completed_sample_def)
  have app: "100 \<le> length (filter (\<lambda>j. status j = ''completed'') db) \<longrightarrow>
        avg_readability_score (get_stats (db @ later)) = avg_readability_score (get_stats db)
        \<and> avg_seo_score (get_stats (db @ later)) = avg_seo_score (get_stats db)"
    by (simp add: get_stats_sample completed_sample_append)
  have empty: "get_stats [] = \<lparr>total_jobs = 0, completed_jobs = 0, processing_jobs = 0,
                       failed_jobs = 0, avg_readability_score = 0, avg_seo_score = 0\<rparr>"
    using py_round2_int [of 0] by (simp add: get_stats_def Let_def count_documents_def)
  from counts avgs len app empty show ?thesis by blast
qed

theorem get_stats_counts_and_averages_witness:
  "100 \<le> length (filter (\<lambda>j. status j = ''completed'') older_jobs)
   \<and> avg_readability_score (get_stats (older_jobs @ [scored_job 100 100]))
       = avg_readability_score (get_stats older_jobs)"
proof -
  have h: "100 \<le> length (filter (\<lambda>j. status j = ''completed'') older_jobs)"
    by (simp add: older_jobs_completed)
  show ?thesis
    using h get_stats_counts_and_averages [of older_jobs "[scored_job 100 100]"] by blast
qed

text \<open>
  Claim C9 as stated fails: with 100 completed jobs of score 0 and then a newer one of
  score 100, the code's average is 0; over the 100 most recent completed jobs it would
  be 1.
\<close>

theorem get_stats_not_most_recent_counterexample:
  "avg_readability_score (get_stats (older_jobs @ [scored_job 100 100])) = 0
   \<and> sample_average readability_score (most_recent_completed (older_jobs @ [scored_job 100 100])) = 1"
proof -
  have "completed_sample (older_jobs @ [scored_job 100 100]) = older_jobs"
    by (simp add: completed_sample_def older_jobs_completed scored_job_fields)
  then have "avg_readability_score (get_stats (older_jobs @ [scored_job 100 100]))
             = py_round2 (average (replicate 100 0))"
    by (simp add: get_stats_sample sample_average_def analysis_scores_zero older_jobs_completed)
  moreover have "average (replicate 100 0) = 0" by (simp add: average_def sum_list_replicate)
  ultimately have code: "avg_readability_score (get_stats (older_jobs @ [scored_job 100 100])) = 0"
    using py_round2_int [of 0] by simp
  define rest where "rest = take 99 (sort_key (\<lambda>j. - int (created_at j)) older_jobs)"
  have newest: "\<forall>x \<in> set older_jobs. - int (created_at (scored_job 100 100)) < - int (created_at x)"
    by (auto simp: older_jobs_def scored_job_fields)
  have "most_recent_completed (older_jobs @ [scored_job 100 100]) = scored_job 100 100 # rest"
    unfolding most_recent_completed_def rest_def
    by (simp add: older_jobs_completed scored_job_fields sort_key_snoc_least [OF newest])
  moreover have "length rest = 99" by (simp add: rest_def older_jobs_completed)
  moreover have "set rest \<subseteq> set older_jobs"
    unfolding rest_def using set_take_subset [of 99 "sort_key (\<lambda>j. - int (created_at j)) older_jobs"]
    by simp
  ultimately have "analysis_scores readability_score
        (most_recent_completed (older_jobs @ [scored_job 100 100])) = 100 # replicate 99 0"
    using analysis_scores_zero [of rest]
    by (simp add: analysis_scores_def scored_job_fields)
  then have "sample_average readability_score
        (most_recent_completed (older_jobs @ [scored_job 100 100])) = py_round2 1"
    by (simp add: sample_average_def average_def sum_list_replicate)
  then have spec: "sample_average readability_score
        (most_recent_completed (older_jobs @ [scored_job 100 100])) = 1"
    using py_round2_int [of 1] by simp
  from code spec show ?thesis by simp
qed

section \<open>Properties of the keyword densities\<close>

lemma first_occurrences_snoc:
  "first_occurrences (ws @ [w]) =
     (if w \<in> set ws then first_occurrences ws else first_occurrences ws @ [w])"
  by (simp add: first_occurrences_def)

lemma first_occurrences_set: "set (first_occurrences ws) = set ws"
  by (simp add: first_occurrences_def)

lemma first_occurrences_distinct: "distinct (first_occurrences ws)"
  by (simp add: first_occurrences_def)

lemma bump_known:
  assumes "distinct ks" and "w \<in> set ks"
  shows "bump w (map (\<lambda>k. (k, c k)) ks) = map (\<lambda>k. (k, if k = w then c k + 1 else c k)) ks"
  using assms by (induction ks) auto

lemma bump_new:
  assumes "w \<notin> set ks"
  shows "bump w (map (\<lambda>k. (k, c k)) ks) = map (\<lambda>k. (k, c k)) ks @ [(w, 1)]"
  using assms by (induction ks) auto

lemma fold_bump_counts:
  "fold bump ws [] = map (\<lambda>k. (k, count_list ws k)) (first_occurrences ws)"
proof (induction ws rule: rev_induct)
  case Nil
  then show ?case by (simp add: first_occurrences_def)
next
  case (snoc w ws)
  show ?case
  proof (cases "w \<in> set ws")
    case True
    then have "w \<in> set (first_occurrences ws)" by (simp add: first_occurrences_set)
    then show ?thesis
      using snoc True
      by (simp add: bump_known first_occurrences_distinct first_occurrences_snoc)
  next
    case False
    then have "w \<notin> set (first_occurrences ws)" by (simp add: first_occurrences_set)
    then show ?thesis
      using snoc False
      by (auto simp: bump_new first_occurrences_snoc first_occurrences_set)
  qed
qed

lemma extract_keywords_ranked:
  "extract_keywords text = take 5 (ranked_keywords (keyword_tokens text))"
proof (cases "keyword_tokens text = []")
  case True
  then show ?thesis
    by (simp add: extract_keywords_def ranked_keywords_def first_occurrences_def)
next
  case False
  have "map (\<lambda>(k, v). (k, to_double (to_double (real v / real (length (keyword_tokens text))) * 100)))
          (map (\<lambda>k. (k, count_list (keyword_tokens text) k)) (first_occurrences (keyword_tokens text)))
        = map (\<lambda>w. (w, computed_density (keyword_tokens text) w))
            (first_occurrences (keyword_tokens text))"
    by (simp add: computed_density_def)
  then have "take 5 (sorted_reverse snd
          (map (\<lambda>(k, v). (k, to_double (to_double (real v / real (length (keyword_tokens text))) * 100)))
             (fold bump (keyword_tokens text) [])))
        = take 5 (ranked_keywords (keyword_tokens text))"
    unfolding fold_bump_counts sorted_reverse_def ranked_keywords_def by (rule arg_cong)
  with False show ?thesis
    unfolding extract_keywords_def Let_def by (simp only: if_False)
qed

lemma sum_list_counts_le:
  assumes "distinct ks" and "set ks \<subseteq> set ws"
  shows "sum_list (map (count_list ws) ks) \<le> length ws"
proof -
  have "sum_list (map (count_list ws) ks) = sum (count_list ws) (set ks)"
    using assms(1) by (simp add: sum.distinct_set_conv_list)
  also have "\<dots> \<le> sum (count_list ws) (set ws)"
    using assms(2) by (intro sum_mono2) simp_all
  also have "\<dots> = length ws"
    by (rule sum_count_set) simp_all
  finally show ?thesis .
qed

lemma sum_list_density:
  "sum_list (map (\<lambda>w. density ws w) ks) = 100 * real (sum_list (map (count_list ws) ks)) / real (length ws)"
  by (induction ks) (simp_all add: density_def add_divide_distrib distrib_left)

lemma exact_densities_total:
  assumes "distinct ks" and "set ks \<subseteq> set ws"
  shows "sum_list (map (\<lambda>w. density ws w) ks) \<le> 100"
proof (cases "ws = []")
  case True
  with assms(2) show ?thesis by simp
next
  case False
  have "real (sum_list (map (count_list ws) ks)) \<le> real (length ws)"
    using sum_list_counts_le [OF assms] by simp
  moreover from False have "0 < real (length ws)" by simp
  ultimately have "real (sum_list (map (count_list ws) ks)) / real (length ws) \<le> 1"
    by (simp add: divide_le_eq_1)
  then have "100 * (real (sum_list (map (count_list ws) ks)) / real (length ws)) \<le> 100 * 1"
    by (rule mult_left_mono) simp
  then show ?thesis by (simp add: sum_list_density)
qed

lemma ranked_keywords_set:
  "set (ranked_keywords ws) = (\<lambda>w. (w, computed_density ws w)) ` set ws"
  by (simp add: ranked_keywords_def first_occurrences_set)

lemma ranked_keywords_distinct: "distinct (map fst (ranked_keywords ws))"
proof -
  have "distinct (map fst (map (\<lambda>w. (w, computed_density ws w)) (first_occurrences ws)))"
    by (simp add: comp_def first_occurrences_distinct)
  then show ?thesis
    unfolding ranked_keywords_def by (auto simp: distinct_map inj_on_def)
qed

lemma ranked_keywords_sorted: "sorted (map (\<lambda>e. - snd e) (ranked_keywords ws))"
  unfolding ranked_keywords_def by (rule sorted_sort_key)

lemma computed_density_positive:
  assumes "w \<in> set ws"
  shows "0 < computed_density ws w"
proof -
  from assms have "count_list ws w \<noteq> 0" by (simp add: count_list_0_iff)
  moreover from assms have "ws \<noteq> []" by auto
  ultimately have "0 < real (count_list ws w) / real (length ws)" by simp
  then have "0 < to_double (real (count_list ws w) / real (length ws))" by (rule to_double_pos)
  then have "0 < to_double (real (count_list ws w) / real (length ws)) * 100" by simp
  then show ?thesis unfolding computed_density_def by (rule to_double_pos)
qed

lemma lower_char_not_upper: "\<not> is_upper (lower_char c)"
  by (auto simp: is_upper_def lower_char_def)

lemma keyword_tokens_shape:
  assumes "k \<in> set (keyword_tokens text)"
  shows "3 < length k \<and> (\<forall>c \<in> set k. \<not> is_upper c)"
  using assms by (auto simp: keyword_tokens_def lower_def lower_char_not_upper)

text \<open>
  Claim C8, as amended. For all text the keyword densities have at most 5 entries with
  distinct keys; each key is a lowercased token longer than 3 characters and its value is
  its density \<open>(count / total) * 100\<close> as computed in double precision, which is positive;
  the exact densities \<open>100 * count / total\<close> of the keys sum to at most 100; the values
  descend; a token left out has a computed density no higher than any entry, and then
  there are 5 entries; entries of equal value stand in the order in which their tokens
  are first met; without a qualifying token the result is empty.
\<close>

theorem extract_keywords_top_five:
  "let ws = keyword_tokens text; r = extract_keywords text
   in r = take 5 (ranked_keywords ws)
      \<and> length r \<le> 5
      \<and> distinct (map fst r)
      \<and> (\<forall>(k, d) \<in> set r. k \<in> set ws \<and> 3 < length k \<and> (\<forall>c \<in> set k. \<not> is_upper c)
                             \<and> d = computed_density ws k \<and> 0 < d)
      \<and> sum_list (map (\<lambda>e. density ws (fst e)) r) \<le> 100
      \<and> (\<forall>i j. i < j \<and> j < length r \<longrightarrow> snd (r ! j) \<le> snd (r ! i))
      \<and> (\<forall>w \<in> set ws. w \<notin> fst ` set r \<longrightarrow>
            length r = 5 \<and> (\<forall>e \<in> set r. computed_density ws w \<le> snd e))
      \<and> (\<forall>d. prefix (filter (\<lambda>e. snd e = d) r)
                 (filter (\<lambda>e. snd e = d)
                    (map (\<lambda>w. (w, computed_density ws w)) (first_occurrences ws))))
      \<and> (ws = [] \<longrightarrow> r = [])"
proof -
  define ws where "ws = keyword_tokens text"
  define all where "all = ranked_keywords ws"
  define r where "r = extract_keywords text"
  have r: "r = take 5 all"
    unfolding r_def all_def ws_def by (rule extract_keywords_ranked)
  have len: "length r \<le> 5" unfolding r by simp
  have sub: "set r \<subseteq> set all" unfolding r by (rule set_take_subset)
  have dist: "distinct (map fst r)"
    unfolding r take_map [symmetric] all_def
    by (rule distinct_take) (rule ranked_keywords_distinct)
  have entries: "\<forall>(k, d) \<in> set r. k \<in> set ws \<and> 3 < length k \<and> (\<forall>c \<in> set k. \<not> is_upper c)
                             \<and> d = computed_density ws k \<and> 0 < d"
  proof (clarify, intro conjI)
    fix k d assume "(k, d) \<in> set r"
    with sub have "(k, d) \<in> set all" by blast
    then have k: "k \<in> set ws" and d: "d = computed_density ws k"
      unfolding all_def ranked_keywords_set by auto
    show "k \<in> set ws" by (rule k)
    show "3 < length k" using k keyword_tokens_shape unfolding ws_def by blast
    show "\<forall>c \<in> set k. \<not> is_upper c" using k keyword_tokens_shape unfolding ws_def by blast
    show "d = computed_density ws k" by (rule d)
    show "0 < d" unfolding d using k by (rule computed_density_positive)
  qed
  have keys: "set (map fst r) \<subseteq> set ws"
  proof
    fix k assume "k \<in> set (map fst r)"
    then obtain d where "(k, d) \<in> set r" by auto
    with entries show "k \<in> set ws" by blast
  qed
  have total: "sum_list (map (\<lambda>e. density ws (fst e)) r) \<le> 100"
  proof -
    have "sum_list (map (\<lambda>e. density ws (fst e)) r)
          = sum_list (map (\<lambda>w. density ws w) (map fst r))"
      by (simp add: comp_def)
    also have "\<dots> \<le> 100" using dist keys by (rule exact_densities_total)
    finally show ?thesis .
  qed
  have sorted_all: "sorted (map (\<lambda>e. - snd e) all)"
    unfolding all_def by (rule ranked_keywords_sorted)
  have desc: "\<forall>i j. i < j \<and> j < length r \<longrightarrow> snd (r ! j) \<le> snd (r ! i)"
  proof (intro allI impI)
    fix i j assume ij: "i < j \<and> j < length r"
    have "sorted (map (\<lambda>e. - snd e) r)"
      unfolding r take_map [symmetric] using sorted_all by (rule sorted_wrt_take)
    then have "map (\<lambda>e. - snd e) r ! i \<le> map (\<lambda>e. - snd e) r ! j"
      using ij by (simp add: sorted_iff_nth_mono_less)
    with ij show "snd (r ! j) \<le> snd (r ! i)" by simp
  qed
  have top: "\<forall>w \<in> set ws. w \<notin> fst ` set r \<longrightarrow>
            length r = 5 \<and> (\<forall>e \<in> set r. computed_density ws w \<le> snd e)"
  proof (intro ballI impI)
    fix w assume w: "w \<in> set ws" and out: "w \<notin> fst ` set r"
    have "(w, computed_density ws w) \<in> set all"
      unfolding all_def ranked_keywords_set using w by simp
    moreover have "(w, computed_density ws w) \<notin> set r" using out by force
    moreover have split: "all = r @ drop 5 all" unfolding r by simp
    ultimately have tail: "(w, computed_density ws w) \<in> set (drop 5 all)"
      by (metis Un_iff set_append)
    then have "drop 5 all \<noteq> []" by auto
    then have l5: "length r = 5" unfolding r by simp
    have "sorted (map (\<lambda>e. - snd e) r @ map (\<lambda>e. - snd e) (drop 5 all))"
      using sorted_all split by (metis map_append)
    then have "\<forall>x \<in> set (map (\<lambda>e. - snd e) r). \<forall>y \<in> set (map (\<lambda>e. - snd e) (drop 5 all)). x \<le> y"
      by (simp add: sorted_append)
    then have "\<forall>e \<in> set r. \<forall>t \<in> set (drop 5 all). - snd e \<le> - snd t"
      by simp
    then have "\<forall>e \<in> set r. - snd e \<le> - snd (w, computed_density ws w)"
      using tail by blast
    then have "\<forall>e \<in> set r. computed_density ws w \<le> snd e" by simp
    with l5 show "length r = 5 \<and> (\<forall>e \<in> set r. computed_density ws w \<le> snd e)" by simp
  qed
  have ties: "\<forall>d. prefix (filter (\<lambda>e. snd e = d) r)
                 (filter (\<lambda>e. snd e = d)
                    (map (\<lambda>w. (w, computed_density ws w)) (first_occurrences ws)))"
  proof
    fix d :: real
    have "filter (\<lambda>e. - snd e = - d) all
          = filter (\<lambda>e. - snd e = - d)
              (map (\<lambda>w. (w, computed_density ws w)) (first_occurrences ws))"
      unfolding all_def ranked_keywords_def by (rule sort_key_stable)
    then have same: "filter (\<lambda>e. snd e = d) all
          = filter (\<lambda>e. snd e = d)
              (map (\<lambda>w. (w, computed_density ws w)) (first_occurrences ws))"
      by simp
    have "prefix r all" unfolding r by (rule take_is_prefix)
    then have "prefix (filter (\<lambda>e. snd e = d) r) (filter (\<lambda>e. snd e = d) all)"
      by (rule filter_mono_prefix)
    then show "prefix (filter (\<lambda>e. snd e = d) r)
                 (filter (\<lambda>e. snd e = d)
                    (map (\<lambda>w. (w, computed_density ws w)) (first_occurrences ws)))"
      unfolding same .
  qed
  have empty: "ws = [] \<longrightarrow> r = []"
    unfolding r_def ws_def by (simp add: extract_keywords_def)
  from r all_def len dist entries total desc top ties empty show ?thesis
    unfolding Let_def ws_def r_def by blast
qed

theorem extract_keywords_top_five_witness:
  "extract_keywords ''aaaa bbbb cccc dddd eeee ffff aaaa aaaa'' =
     [(''aaaa'', 75 / 2), (''bbbb'', 25 / 2), (''cccc'', 25 / 2), (''dddd'', 25 / 2),
      (''eeee'', 25 / 2)]
   \<and> take 5 (ranked_keywords (keyword_tokens ''aaaa bbbb cccc dddd eeee ffff aaaa aaaa'')) =
     [(''aaaa'', 75 / 2), (''bbbb'', 25 / 2), (''cccc'', 25 / 2), (''dddd'', 25 / 2),
      (''eeee'', 25 / 2)]
   \<and> ''ffff'' \<in> set (keyword_tokens ''aaaa bbbb cccc dddd eeee ffff aaaa aaaa'')
   \<and> keyword_tokens ''a bc def'' = [] \<and> extract_keywords ''a bc def'' = []"
proof -
  have t: "keyword_tokens ''aaaa bbbb cccc dddd eeee ffff aaaa aaaa''
           = [''aaaa'', ''bbbb'', ''cccc'', ''dddd'', ''eeee'', ''ffff'', ''aaaa'', ''aaaa'']"
    by (simp add: keyword_tokens_def runs_def is_word_char_def is_upper_def is_lower_def
        is_digit_def lower_def lower_char_def)
  have e: "extract_keywords ''aaaa bbbb cccc dddd eeee ffff aaaa aaaa'' =
     [(''aaaa'', 75 / 2), (''bbbb'', 25 / 2), (''cccc'', 25 / 2), (''dddd'', 25 / 2),
      (''eeee'', 25 / 2)]"
    unfolding extract_keywords_def t by (simp add: sorted_reverse_def eighths_as_double)
  have n: "keyword_tokens ''a bc def'' = []"
    by (simp add: keyword_tokens_def runs_def is_word_char_def is_upper_def is_lower_def
        is_digit_def lower_def lower_char_def)
  have s1: "extract_keywords ''aaaa bbbb cccc dddd eeee ffff aaaa aaaa''
            = take 5 (ranked_keywords (keyword_tokens ''aaaa bbbb cccc dddd eeee ffff aaaa aaaa''))"
    using extract_keywords_top_five [of "''aaaa bbbb cccc dddd eeee ffff aaaa aaaa''"]
    unfolding Let_def by (rule conjunct1)
  have s2: "keyword_tokens ''a bc def'' = [] \<longrightarrow> extract_keywords ''a bc def'' = []"
    using extract_keywords_top_five [of "''a bc def''"]
    unfolding Let_def by (elim conjE) assumption
  from s1 s2 n e t show ?thesis by simp
qed

text \<open>
  Claim C8 as stated fails: with nine tokens \<open>aaaa\<close> and two tokens \<open>bbbb\<close> the two
  densities are the doubles printed as 81.81818181818183 and 18.181818181818183, and
  their sum is above 100.
\<close>

theorem extract_keywords_sum_counterexample:
  "extract_keywords ''aaaa aaaa aaaa aaaa aaaa aaaa aaaa aaaa aaaa bbbb bbbb'' =
     [(''aaaa'', 5757442705445237 / 70368744177664),
      (''bbbb'', 5117726849284655 / 281474976710656)]
   \<and> 100 < sum_list (map snd
               (extract_keywords ''aaaa aaaa aaaa aaaa aaaa aaaa aaaa aaaa aaaa bbbb bbbb''))"
proof -
  have t: "keyword_tokens ''aaaa aaaa aaaa aaaa aaaa aaaa aaaa aaaa aaaa bbbb bbbb''
           = [''aaaa'', ''aaaa'', ''aaaa'', ''aaaa'', ''aaaa'', ''aaaa'', ''aaaa'', ''aaaa'',
              ''aaaa'', ''bbbb'', ''bbbb'']"
    by (simp add: keyword_tokens_def runs_def is_word_char_def is_upper_def is_lower_def
        is_digit_def lower_def lower_char_def)
  have e: "extract_keywords ''aaaa aaaa aaaa aaaa aaaa aaaa aaaa aaaa aaaa bbbb bbbb'' =
     [(''aaaa'', 5757442705445237 / 70368744177664),
      (''bbbb'', 5117726849284655 / 281474976710656)]"
    unfolding extract_keywords_def t by (simp add: sorted_reverse_def elevenths_as_double)
  show ?thesis unfolding e by simp
qed

end
